theory Spec2Isabelle
  imports Complex_Main "HOL-Library.Sublist"
begin

section \<open>String primitives of the host language\<close>

text \<open>
  The two string methods the source calls. \<open>s.startsWith(p)\<close> compares the first
  \<open>length p\<close> code units of \<open>s\<close> with \<open>p\<close>; \<open>s.includes(t)\<close>, here \<open>includes_str\<close>,
  looks for \<open>t\<close> at every position of \<open>s\<close>. Both are written so that they evaluate
  on literals, and both are shown below to agree with the library's \<open>prefix\<close> and
  \<open>sublist\<close>.
\<close>

definition startsWith :: "string \<Rightarrow> string \<Rightarrow> bool" where
  "startsWith s p = (take (length p) s = p)"

fun includes_str :: "string \<Rightarrow> string \<Rightarrow> bool" where
  "includes_str [] t = (t = [])"
| "includes_str (c # cs) t = (startsWith (c # cs) t \<or> includes_str cs t)"

section \<open>The type detector and the MIME resolver (index.tsx)\<close>

text \<open>
  The literal union \<open>"image" | "pdf" | "document" | "unknown"\<close> of the source; \<open>kindName\<close>
  gives back the string literal each constructor stands for, since \<open>getMimeType\<close> takes
  its first argument as a plain string.
\<close>

datatype DetectedKind = Image | Pdf | Document | Unknown

fun kindName :: "DetectedKind \<Rightarrow> string" where
  "kindName Image = ''image''"
| "kindName Pdf = ''pdf''"
| "kindName Document = ''document''"
| "kindName Unknown = ''unknown''"

text \<open>
  An optional parameter \<open>mimeType?: string\<close> is a \<open>string option\<close>. The test
  \<open>if (mimeType)\<close> is false for \<open>undefined\<close> and for the empty string.
\<close>

definition truthyStr :: "string option \<Rightarrow> bool" where
  "truthyStr v = (case v of None \<Rightarrow> False | Some s \<Rightarrow> s \<noteq> [])"

definition detectFileType :: "string option \<Rightarrow> DetectedKind" where
  "detectFileType mimeType =
    (case mimeType of
       None \<Rightarrow> Unknown
     | Some m \<Rightarrow>
         if m = [] then Unknown
         else if startsWith m ''image/'' then Image
         else if m = ''application/pdf'' then Pdf
         else if includes_str m ''document'' \<or>
                 includes_str m ''word'' \<or>
                 includes_str m ''text'' \<or>
                 includes_str m ''spreadsheet'' \<or>
                 includes_str m ''presentation'' \<or>
                 m = ''application/vnd.openxmlformats-officedocument.wordprocessingml.document'' \<or>
                 m = ''application/vnd.openxmlformats-officedocument.spreadsheetml.sheet'' \<or>
                 m = ''application/vnd.openxmlformats-officedocument.presentationml.presentation'' \<or>
                 m = ''application/msword'' \<or>
                 m = ''application/vnd.ms-excel'' \<or>
                 m = ''application/vnd.ms-powerpoint''
           then Document
         else Unknown)"

text \<open>
  \<open>getMimeType\<close> returns the provided hint when it is truthy, and otherwise goes through
  the \<open>switch\<close> on the detected type, whose \<open>document\<close> and \<open>default\<close> arms give the
  same string.
\<close>

definition getMimeType :: "string \<Rightarrow> string option \<Rightarrow> string" where
  "getMimeType detectedType providedMimeType =
    (if truthyStr providedMimeType then the providedMimeType
     else if detectedType = ''pdf'' then ''application/pdf''
     else if detectedType = ''image'' then ''image/jpeg''
     else if detectedType = ''document'' then ''application/octet-stream''
     else ''application/octet-stream'')"

section \<open>Values of the host language\<close>

text \<open>
  The prop \<open>mediaFile?: any\<close> can hold any value, and the component inspects it with
  truthiness, \<open>typeof\<close>, \<open>instanceof\<close> and the property \<open>data\<close>. The values are modelled
  as far as these tests tell them apart. An object (a \<open>Blob\<close>, an \<open>ArrayBuffer\<close>, any
  other object) and a symbol carry an identity, since React compares dependencies with
  \<open>Object.is\<close>. A \<open>Blob\<close> also carries its type; any other object carries the value of its
  \<open>data\<close> property, \<open>JUndefined\<close> when it has none. Numbers are integers here; \<open>NaN\<close>,
  which is falsy like \<open>0\<close>, is left out. The bytes of a buffer are never read by the
  component and are not modelled.
\<close>

datatype JsValue =
    JUndefined
  | JNull
  | JBool bool
  | JNum int
  | JStr string
  | JSymbol nat
  | JBlob nat string
  | JArrayBuffer nat
  | JObject nat JsValue

fun truthy :: "JsValue \<Rightarrow> bool" where
  "truthy JUndefined = False"
| "truthy JNull = False"
| "truthy (JBool b) = b"
| "truthy (JNum n) = (n \<noteq> 0)"
| "truthy (JStr s) = (s \<noteq> [])"
| "truthy (JSymbol i) = True"
| "truthy (JBlob i ty) = True"
| "truthy (JArrayBuffer i) = True"
| "truthy (JObject i d) = True"

text \<open>\<open>Object.is\<close>: objects and symbols by identity, every other value by content.\<close>

fun sameValue :: "JsValue \<Rightarrow> JsValue \<Rightarrow> bool" where
  "sameValue (JSymbol i) (JSymbol j) = (i = j)"
| "sameValue (JBlob i s) (JBlob j t) = (i = j)"
| "sameValue (JArrayBuffer i) (JArrayBuffer j) = (i = j)"
| "sameValue (JObject i d) (JObject j e) = (i = j)"
| "sameValue a b = (a = b)"

section \<open>The payload normalizer (index.tsx, the body of the try block)\<close>

text \<open>
  The try block either calls \<open>setDocumentUrl\<close> with a data URL, or calls
  \<open>URL.createObjectURL\<close> on a blob and stores the result, or calls \<open>setError\<close>; or it
  throws. \<open>processMediaFile\<close> computes which, in the order of the source's branches; the
  effect below carries the action out. A blob is either the payload itself or one built by
  \<open>new Blob([part], {type})\<close>. The \<open>Blob\<close> constructor converts a part that is neither
  a buffer nor a blob to a string, which throws a \<open>TypeError\<close> for a symbol.
\<close>

datatype JsError = TypeError

datatype BlobSource = ExistingBlob nat | NewBlob JsValue string

datatype Action =
    SetDocumentUrl string
  | CreateObjectUrl BlobSource
  | SetError string

fun newBlob :: "JsValue \<Rightarrow> string \<Rightarrow> JsError + BlobSource" where
  "newBlob (JSymbol i) ty = Inl TypeError"
| "newBlob part ty = Inr (NewBlob part ty)"

text \<open>The template literal \<open>`data:${detectedMimeType};base64,${payload}`\<close>.\<close>

definition dataUrl :: "string \<Rightarrow> string \<Rightarrow> string" where
  "dataUrl detectedMimeType payload = ''data:'' @ detectedMimeType @ '';base64,'' @ payload"

fun processMediaFile :: "JsValue \<Rightarrow> string option \<Rightarrow> DetectedKind \<Rightarrow> JsError + Action" where
  "processMediaFile (JStr s) mt detectedType =
    (if startsWith s ''data:'' then Inr (SetDocumentUrl s)
     else Inr (SetDocumentUrl (dataUrl (getMimeType (kindName detectedType) mt) s)))"
| "processMediaFile (JBlob i ty) mt detectedType = Inr (CreateObjectUrl (ExistingBlob i))"
| "processMediaFile (JArrayBuffer i) mt detectedType =
    (case newBlob (JArrayBuffer i) (getMimeType (kindName detectedType) mt) of
       Inl e \<Rightarrow> Inl e
     | Inr blob \<Rightarrow> Inr (CreateObjectUrl blob))"
| "processMediaFile (JObject i d) mt detectedType =
    (if truthy d then
       (case d of
          JStr s \<Rightarrow> Inr (SetDocumentUrl (dataUrl (getMimeType (kindName detectedType) mt) s))
        | _ \<Rightarrow>
          (case newBlob d (getMimeType (kindName detectedType) mt) of
             Inl e \<Rightarrow> Inl e
           | Inr blob \<Rightarrow> Inr (CreateObjectUrl blob)))
     else Inr (SetError ''Unsupported media file format''))"
| "processMediaFile v mt detectedType = Inr (SetError ''Unsupported media file format'')"

section \<open>The browser's object-URL registry\<close>

text \<open>
  \<open>URL.createObjectURL\<close> returns a string that starts with \<open>blob:\<close> and was never
  returned before; the \<open>n\<close>-th call returns \<open>blobUrl n\<close>. \<open>live\<close> holds the URLs that
  have been created and not revoked, with their blobs. Revoking a URL that is not live
  does nothing.
\<close>

record UrlRegistry =
  live :: "(string \<times> BlobSource) list"
  issued :: nat

definition blobUrl :: "nat \<Rightarrow> string" where
  "blobUrl n = ''blob:'' @ replicate n (CHR ''#'')"

definition createObjectURL :: "BlobSource \<Rightarrow> UrlRegistry \<Rightarrow> string \<times> UrlRegistry" where
  "createObjectURL blob reg =
    (blobUrl (issued reg),
     reg\<lparr>live := live reg @ [(blobUrl (issued reg), blob)], issued := Suc (issued reg)\<rparr>)"

definition revokeObjectURL :: "string \<Rightarrow> UrlRegistry \<Rightarrow> UrlRegistry" where
  "revokeObjectURL url reg = reg\<lparr>live := filter (\<lambda>e. fst e \<noteq> url) (live reg)\<rparr>"

definition liveUrls :: "UrlRegistry \<Rightarrow> string list" where
  "liveUrls reg = map fst (live reg)"

section \<open>The modal component (index.tsx)\<close>

record ModalState =
  documentUrl :: string
  isLoading :: bool
  error :: string
  fileType :: DetectedKind

record ModalProps =
  isOpen :: bool
  mediaFile :: JsValue
  mimeType :: "string option"

definition initialState :: ModalState where
  "initialState = \<lparr>documentUrl = [], isLoading = False, error = [], fileType = Unknown\<rparr>"

text \<open>The test \<open>documentUrl && documentUrl.startsWith("blob:")\<close>.\<close>

definition isBlobUrl :: "string \<Rightarrow> bool" where
  "isBlobUrl url = (url \<noteq> [] \<and> startsWith url ''blob:'')"

text \<open>
  The first effect, with dependencies \<open>[mediaFile, isOpen, mimeType]\<close>. It takes the
  props of the render it belongs to and the pair of pending state and registry, and
  returns the pair after its \<open>set...\<close> calls and its allocation. The \<open>catch\<close> arm is the
  \<open>Inl\<close> case; the \<open>finally\<close> arm is the last update.
\<close>

definition normalizationEffect ::
  "ModalProps \<Rightarrow> ModalState \<times> UrlRegistry \<Rightarrow> ModalState \<times> UrlRegistry" where
  "normalizationEffect p w =
    (if truthy (mediaFile p) \<and> isOpen p then
       (let st = (fst w)\<lparr>isLoading := True, error := []\<rparr>;
            reg = snd w;
            detectedType = detectFileType (mimeType p);
            st = st\<lparr>fileType := detectedType\<rparr>;
            (st, reg) =
              (case processMediaFile (mediaFile p) (mimeType p) detectedType of
                 Inr (SetDocumentUrl url) \<Rightarrow> (st\<lparr>documentUrl := url\<rparr>, reg)
               | Inr (CreateObjectUrl blob) \<Rightarrow>
                   (let (url, reg) = createObjectURL blob reg
                    in (st\<lparr>documentUrl := url\<rparr>, reg))
               | Inr (SetError msg) \<Rightarrow> (st\<lparr>error := msg\<rparr>, reg)
               | Inl err \<Rightarrow> (st\<lparr>error := ''Failed to load document''\<rparr>, reg))
        in (st\<lparr>isLoading := False\<rparr>, reg))
     else w)"

text \<open>
  The function the first effect returns. Its \<open>documentUrl\<close> is the variable of the render
  in which the effect ran, so the cleanup is given that captured value.
\<close>

definition normalizationCleanup :: "string \<Rightarrow> UrlRegistry \<Rightarrow> UrlRegistry" where
  "normalizationCleanup capturedUrl reg =
    (if isBlobUrl capturedUrl then revokeObjectURL capturedUrl reg else reg)"

text \<open>
  The second effect, with dependencies \<open>[isOpen, documentUrl]\<close>. It reads the
  \<open>documentUrl\<close> of its render and writes the pending state.
\<close>

definition closeEffect ::
  "ModalProps \<Rightarrow> string \<Rightarrow> ModalState \<times> UrlRegistry \<Rightarrow> ModalState \<times> UrlRegistry" where
  "closeEffect p renderedUrl w =
    (if \<not> isOpen p \<and> isBlobUrl renderedUrl
     then ((fst w)\<lparr>documentUrl := []\<rparr>, revokeObjectURL renderedUrl (snd w))
     else w)"

text \<open>
  A mounted component: its state, the registry, and what React keeps for the two effects:
  the dependencies of the last render and, for the first effect, the \<open>documentUrl\<close> its
  stored cleanup captured. \<open>effect1_deps = None\<close> before the first render.
\<close>

record Instance =
  state :: ModalState
  registry :: UrlRegistry
  effect1_deps :: "ModalProps option"
  effect1_captured :: string
  effect2_deps :: "(bool \<times> string) option"

definition sameDeps :: "ModalProps \<Rightarrow> ModalProps \<Rightarrow> bool" where
  "sameDeps d p =
    (sameValue (mediaFile d) (mediaFile p) \<and> isOpen d = isOpen p \<and> mimeType d = mimeType p)"

definition effect1Due :: "ModalProps \<Rightarrow> Instance \<Rightarrow> bool" where
  "effect1Due p inst =
    (case effect1_deps inst of None \<Rightarrow> True | Some d \<Rightarrow> \<not> sameDeps d p)"

definition effect2Due :: "ModalProps \<Rightarrow> Instance \<Rightarrow> bool" where
  "effect2Due p inst =
    (case effect2_deps inst of
       None \<Rightarrow> True
     | Some d \<Rightarrow> d \<noteq> (isOpen p, documentUrl (state inst)))"

text \<open>
  One render with props \<open>p\<close> and the effects that follow it. React first runs the stored
  cleanup of every effect whose dependencies changed, then the effects themselves in
  the order of the source; each effect sees the state of this render, and the state
  updates take effect together afterwards.
\<close>

definition commit :: "ModalProps \<Rightarrow> Instance \<Rightarrow> Instance" where
  "commit p inst =
    (let rendered = state inst;
         run1 = effect1Due p inst;
         run2 = effect2Due p inst;
         reg = (if run1 \<and> effect1_deps inst \<noteq> None
                then normalizationCleanup (effect1_captured inst) (registry inst)
                else registry inst);
         w = (rendered, reg);
         w = (if run1 then normalizationEffect p w else w);
         w = (if run2 then closeEffect p (documentUrl rendered) w else w)
     in \<lparr>state = fst w,
         registry = snd w,
         effect1_deps = (if run1 then Some p else effect1_deps inst),
         effect1_captured = (if run1 then documentUrl rendered else effect1_captured inst),
         effect2_deps =
           (if run2 then Some (isOpen p, documentUrl rendered) else effect2_deps inst)\<rparr>)"

text \<open>
  A state update made by an effect causes another render with the same props, until a
  render changes no state.
\<close>

function rerender :: "ModalProps \<Rightarrow> Instance \<Rightarrow> Instance" where
  "rerender p inst =
    (if state (commit p inst) = state inst then commit p inst
     else rerender p (commit p inst))"
  by pat_completeness auto
termination
proof (relation "measure (\<lambda>(p, inst).
         (if effect1Due p inst then 2 else 0) +
         (if \<not> isOpen p \<and> isBlobUrl (documentUrl (state inst)) then 1 else 0))", goal_cases)
  case 1
  show ?case by simp
next
  case (2 p inst)
  have same: "sameDeps p p"
    by (cases "mediaFile p") (simp_all add: sameDeps_def)
  have ran: "\<not> effect1Due p (commit p inst)"
    using same by (auto simp: effect1Due_def commit_def Let_def split: option.splits)
  show ?case
  proof (cases "effect1Due p inst")
    case True
    then show ?thesis using ran by simp
  next
    case False
    with 2 have "\<not> isOpen p \<and> isBlobUrl (documentUrl (state inst)) \<and>
        documentUrl (state (commit p inst)) = []"
      by (auto simp: commit_def Let_def closeEffect_def split: if_splits)
    then show ?thesis using False ran by (simp add: isBlobUrl_def)
  qed
qed

definition unmounted :: Instance where
  "unmounted =
    \<lparr>state = initialState, registry = \<lparr>live = [], issued = 0\<rparr>, effect1_deps = None,
     effect1_captured = [], effect2_deps = None\<rparr>"

text \<open>The component after it has been rendered with each of the props in turn.\<close>

definition modalRun :: "ModalProps list \<Rightarrow> Instance" where
  "modalRun ps = foldl (\<lambda>inst p. rerender p inst) unmounted ps"

text \<open>Unmounting runs the stored cleanup of the first effect; the second has none.\<close>

definition unmount :: "Instance \<Rightarrow> Instance" where
  "unmount inst =
    (if effect1_deps inst \<noteq> None
     then inst\<lparr>registry := normalizationCleanup (effect1_captured inst) (registry inst)\<rparr>
     else inst)"

text \<open>
  What the dialog shows between its header and footer. \<open>DocumentFrame url\<close> is the frame
  on the hosted viewer, which is given the percent-encoded \<open>url\<close>; the second component
  of \<open>ErrorDisplay\<close> is the target of the download button, when there is one.
\<close>

datatype PreviewContent =
    NoContent
  | ImageElement string
  | PdfFrame string
  | DocumentFrame string
  | NotAvailable string

datatype ModalBody =
    Spinner
  | ErrorDisplay string "string option"
  | Preview PreviewContent

definition renderPreviewContent :: "ModalState \<Rightarrow> PreviewContent" where
  "renderPreviewContent st =
    (if documentUrl st = [] then NoContent
     else (case fileType st of
             Image \<Rightarrow> ImageElement (documentUrl st)
           | Pdf \<Rightarrow> PdfFrame (documentUrl st)
           | Document \<Rightarrow> DocumentFrame (documentUrl st)
           | Unknown \<Rightarrow> NotAvailable (documentUrl st)))"

definition renderBody :: "ModalState \<Rightarrow> ModalBody" where
  "renderBody st =
    (if isLoading st then Spinner
     else if error st \<noteq> [] then
       ErrorDisplay (error st) (if documentUrl st \<noteq> [] then Some (documentUrl st) else None)
     else Preview (renderPreviewContent st))"

section \<open>The pan/zoom viewer (ImageZoomViewer)\<close>

text \<open>
  The scale and the coordinates are JavaScript numbers. The scale starts at \<open>1\<close> and only
  ever moves by \<open>0.25\<close> between \<open>0.5\<close> and \<open>5\<close>; all of these are multiples of a
  quarter, which binary floating point represents and adds exactly, so rational numbers
  compute the same values (\<open>scale_quarter_steps\<close> below). Pointer coordinates are taken as
  rationals as well, where the code adds doubles; no statement below depends on the value
  of such a sum.
\<close>

record Point =
  coord_x :: rat
  coord_y :: rat

record ZoomState =
  scale :: rat
  position :: Point
  isDragging :: bool
  dragStart :: Point
  lastPosition :: Point

definition origin :: Point where
  "origin = \<lparr>coord_x = 0, coord_y = 0\<rparr>"

definition minScale :: rat where "minScale = 1 / 2"

definition maxScale :: rat where "maxScale = 5"

definition scaleStep :: rat where "scaleStep = 1 / 4"

definition initialZoom :: ZoomState where
  "initialZoom =
    \<lparr>scale = 1, position = origin, isDragging = False, dragStart = origin,
     lastPosition = origin\<rparr>"

text \<open>The effect with dependency \<open>[scale]\<close>.\<close>

definition resetPositionEffect :: "ZoomState \<Rightarrow> ZoomState" where
  "resetPositionEffect s = (if scale s = 1 then s\<lparr>position := origin\<rparr> else s)"

definition handleZoomIn :: "ZoomState \<Rightarrow> ZoomState" where
  "handleZoomIn s = s\<lparr>scale := min (scale s + scaleStep) maxScale\<rparr>"

definition handleZoomOut :: "ZoomState \<Rightarrow> ZoomState" where
  "handleZoomOut s = s\<lparr>scale := max (scale s - scaleStep) minScale\<rparr>"

definition handleReset :: "ZoomState \<Rightarrow> ZoomState" where
  "handleReset s = s\<lparr>scale := 1, position := origin\<rparr>"

definition handleMouseDown :: "rat \<Rightarrow> rat \<Rightarrow> ZoomState \<Rightarrow> ZoomState" where
  "handleMouseDown clientX clientY s =
    (if scale s > 1
     then s\<lparr>isDragging := True,
            dragStart := \<lparr>coord_x = clientX, coord_y = clientY\<rparr>,
            lastPosition := position s\<rparr>
     else s)"

definition handleMouseMove :: "rat \<Rightarrow> rat \<Rightarrow> ZoomState \<Rightarrow> ZoomState" where
  "handleMouseMove clientX clientY s =
    (if isDragging s \<and> scale s > 1
     then (let deltaX = clientX - coord_x (dragStart s);
               deltaY = clientY - coord_y (dragStart s)
           in s\<lparr>position := \<lparr>coord_x = coord_x (lastPosition s) + deltaX,
                               coord_y = coord_y (lastPosition s) + deltaY\<rparr>\<rparr>)
     else s)"

definition handleMouseUp :: "ZoomState \<Rightarrow> ZoomState" where
  "handleMouseUp s = s\<lparr>isDragging := False\<rparr>"

definition handleWheel :: "rat \<Rightarrow> ZoomState \<Rightarrow> ZoomState" where
  "handleWheel deltaY s =
    (let delta = (if deltaY > 0 then - scaleStep else scaleStep)
     in s\<lparr>scale := max minScale (min maxScale (scale s + delta))\<rparr>)"

definition handleTouchStart :: "Point list \<Rightarrow> ZoomState \<Rightarrow> ZoomState" where
  "handleTouchStart touches s =
    (if length touches = 1 \<and> scale s > 1
     then (let touch = hd touches
           in s\<lparr>isDragging := True,
                 dragStart := \<lparr>coord_x = coord_x touch, coord_y = coord_y touch\<rparr>,
                 lastPosition := position s\<rparr>)
     else s)"

definition handleTouchMove :: "Point list \<Rightarrow> ZoomState \<Rightarrow> ZoomState" where
  "handleTouchMove touches s =
    (if isDragging s \<and> length touches = 1 \<and> scale s > 1
     then (let touch = hd touches;
               deltaX = coord_x touch - coord_x (dragStart s);
               deltaY = coord_y touch - coord_y (dragStart s)
           in s\<lparr>position := \<lparr>coord_x = coord_x (lastPosition s) + deltaX,
                               coord_y = coord_y (lastPosition s) + deltaY\<rparr>\<rparr>)
     else s)"

definition handleTouchEnd :: "ZoomState \<Rightarrow> ZoomState" where
  "handleTouchEnd s = s\<lparr>isDragging := False\<rparr>"

text \<open>
  The events the JSX wires to the handlers: the three buttons, and on the container the
  mouse, wheel and touch events (\<open>onMouseLeave\<close> shares \<open>handleMouseUp\<close>). A disabled
  button sends no click; the handlers do not rely on that, and every event is let through
  in every state.
\<close>

datatype ZoomEvent =
    ClickZoomIn
  | ClickZoomOut
  | ClickReset
  | MouseDown rat rat
  | MouseMove rat rat
  | MouseUp
  | MouseLeave
  | Wheel rat
  | TouchStart "Point list"
  | TouchMove "Point list"
  | TouchEnd

fun dispatch :: "ZoomEvent \<Rightarrow> ZoomState \<Rightarrow> ZoomState" where
  "dispatch ClickZoomIn s = handleZoomIn s"
| "dispatch ClickZoomOut s = handleZoomOut s"
| "dispatch ClickReset s = handleReset s"
| "dispatch (MouseDown cx cy) s = handleMouseDown cx cy s"
| "dispatch (MouseMove cx cy) s = handleMouseMove cx cy s"
| "dispatch MouseUp s = handleMouseUp s"
| "dispatch MouseLeave s = handleMouseUp s"
| "dispatch (Wheel dy) s = handleWheel dy s"
| "dispatch (TouchStart ts) s = handleTouchStart ts s"
| "dispatch (TouchMove ts) s = handleTouchMove ts s"
| "dispatch TouchEnd s = handleTouchEnd s"

text \<open>
  One event, up to the state in which the next event is handled: the handler, the render
  it causes, and the effect, which runs after that render when its scale differs from the
  scale of the render before. The render between the handler and the effect is kept in
  \<open>zoomFrames\<close> below.
\<close>

definition zoomStep :: "ZoomEvent \<Rightarrow> ZoomState \<Rightarrow> ZoomState" where
  "zoomStep ev s =
    (let s' = dispatch ev s
     in if scale s' \<noteq> scale s then resetPositionEffect s' else s')"

text \<open>Mounting runs the effect once on the initial state.\<close>

definition zoomMounted :: ZoomState where
  "zoomMounted = resetPositionEffect initialZoom"

definition zoomRun :: "ZoomEvent list \<Rightarrow> ZoomState" where
  "zoomRun evs = foldl (\<lambda>s ev. zoomStep ev s) zoomMounted evs"

text \<open>
  The renders themselves. An event's handler causes one render; when the scale of that
  render differs from the one before and is \<open>1\<close>, the effect calls \<open>setPosition\<close> after
  the render has been committed, which causes a second render. \<open>zoomFrames\<close> lists the
  renders of one event, the last of which is \<open>zoomStep\<close>; \<open>zoomRendered\<close> lists every
  render since the mount, the initial one and the one after the mount effect first.
\<close>

definition zoomFrames :: "ZoomEvent \<Rightarrow> ZoomState \<Rightarrow> ZoomState list" where
  "zoomFrames ev s =
    (let s' = dispatch ev s
     in if scale s' \<noteq> scale s \<and> scale s' = 1 then [s', resetPositionEffect s'] else [s'])"

fun zoomRenders :: "ZoomEvent list \<Rightarrow> ZoomState \<Rightarrow> ZoomState list" where
  "zoomRenders [] s = []"
| "zoomRenders (ev # evs) s = zoomFrames ev s @ zoomRenders evs (zoomStep ev s)"

definition zoomRendered :: "ZoomEvent list \<Rightarrow> ZoomState list" where
  "zoomRendered evs = initialZoom # zoomMounted # zoomRenders evs zoomMounted"

text \<open>
  A list of renders in which every render at scale \<open>1\<close> with an offset other than
  \<open>(0, 0)\<close> is followed at once by a render at scale \<open>1\<close> with the offset \<open>(0, 0)\<close>, and
  the last render is not of that kind.
\<close>

fun resetFollows :: "ZoomState list \<Rightarrow> bool" where
  "resetFollows [] = True"
| "resetFollows [s] = (scale s = 1 \<longrightarrow> position s = origin)"
| "resetFollows (s # t # rest) =
    ((scale s = 1 \<and> position s \<noteq> origin \<longrightarrow> scale t = 1 \<and> position t = origin) \<and>
     resetFollows (t # rest))"

section \<open>Predicates used in the statements\<close>

text \<open>
  After a render has settled, the dependencies React holds for the second effect are
  those of the props and state last rendered.
\<close>

definition consistent :: "Instance \<Rightarrow> bool" where
  "consistent inst =
    (case effect1_deps inst of
       None \<Rightarrow> effect2_deps inst = None
     | Some d \<Rightarrow> effect2_deps inst = Some (isOpen d, documentUrl (state inst)))"

text \<open>The registry after the stored cleanup of the first effect has run, if there is one.\<close>

definition cleanedRegistry :: "Instance \<Rightarrow> UrlRegistry" where
  "cleanedRegistry inst =
    (if effect1_deps inst \<noteq> None
     then normalizationCleanup (effect1_captured inst) (registry inst)
     else registry inst)"

text \<open>
  A payload that is not a string, not a blob, not a buffer, and not an object with a
  \<open>data\<close> property.
\<close>

definition matchesNoBranch :: "JsValue \<Rightarrow> bool" where
  "matchesNoBranch v =
    (case v of
       JStr s \<Rightarrow> False
     | JBlob i ty \<Rightarrow> False
     | JArrayBuffer i \<Rightarrow> False
     | JObject i d \<Rightarrow> d = JUndefined
     | _ \<Rightarrow> True)"

text \<open>The locator of a string payload.\<close>

definition stringLocator :: "string \<Rightarrow> string option \<Rightarrow> string" where
  "stringLocator s mt =
    (if startsWith s ''data:'' then s
     else ''data:'' @ getMimeType (kindName (detectFileType mt)) mt @ '';base64,'' @ s)"

text \<open>The message the effect stores when the try block fails, \<open>None\<close> when it succeeds.\<close>

definition failureMessage :: "JsError + Action \<Rightarrow> string option" where
  "failureMessage r =
    (case r of
       Inl e \<Rightarrow> Some ''Failed to load document''
     | Inr (SetError m) \<Rightarrow> Some m
     | Inr _ \<Rightarrow> None)"

text \<open>Props of an open and of a closed modal, for the examples.\<close>

definition openWith :: "JsValue \<Rightarrow> string option \<Rightarrow> ModalProps" where
  "openWith v mt = \<lparr>isOpen = True, mediaFile = v, mimeType = mt\<rparr>"

definition closedWith :: "JsValue \<Rightarrow> string option \<Rightarrow> ModalProps" where
  "closedWith v mt = \<lparr>isOpen = False, mediaFile = v, mimeType = mt\<rparr>"

text \<open>
  Two invariants of the settled component: while the props last rendered are an open
  modal with a non-empty string payload, the stored locator is the locator of that
  string; and a stored locator that is an object URL is one the registry has issued.
\<close>

definition stringInv :: "Instance \<Rightarrow> bool" where
  "stringInv inst =
    (\<forall>d s. effect1_deps inst = Some d \<and> isOpen d \<and> mediaFile d = JStr s \<and> s \<noteq> []
       \<longrightarrow> documentUrl (state inst) = stringLocator s (mimeType d))"

definition issuedInv :: "Instance \<Rightarrow> bool" where
  "issuedInv inst =
    (isBlobUrl (documentUrl (state inst)) \<longrightarrow>
       (\<exists>k < issued (registry inst). documentUrl (state inst) = blobUrl k))"

text \<open>
  Every live object URL is the stored locator or the one the stored cleanup captured.
\<close>

definition liveInv :: "Instance \<Rightarrow> bool" where
  "liveInv inst =
    (set (liveUrls (registry inst)) \<subseteq> {documentUrl (state inst), effect1_captured inst} \<and>
     (\<forall>u \<in> set (liveUrls (registry inst)). isBlobUrl u) \<and>
     (effect1_deps inst = None \<longrightarrow> liveUrls (registry inst) = []))"

text \<open>Every live object URL is one the registry has issued.\<close>

definition liveIssuedInv :: "Instance \<Rightarrow> bool" where
  "liveIssuedInv inst =
    (\<forall>u \<in> set (liveUrls (registry inst)). \<exists>k < issued (registry inst). u = blobUrl k)"

section \<open>Properties of the string primitives\<close>

lemma startsWith_prefix: "startsWith s p \<longleftrightarrow> prefix p s"
proof
  assume "startsWith s p"
  then have "s = p @ drop (length p) s"
    unfolding startsWith_def by (metis append_take_drop_id)
  then show "prefix p s" by (metis prefixI)
next
  assume "prefix p s"
  then obtain r where "s = p @ r" by (auto elim: prefixE)
  then show "startsWith s p" by (simp add: startsWith_def)
qed

lemma includes_sublist: "includes_str s t \<longleftrightarrow> sublist t s"
proof (induction s)
  case Nil
  show ?case by simp
next
  case (Cons c cs)
  show ?case
    by (simp add: Cons.IH startsWith_prefix sublist_Cons_right)
qed

lemma startsWith_nonempty: "startsWith s p \<Longrightarrow> p \<noteq> [] \<Longrightarrow> s \<noteq> []"
  by (auto simp: startsWith_def)

lemma includes_nonempty: "includes_str s t \<Longrightarrow> t \<noteq> [] \<Longrightarrow> s \<noteq> []"
  by (cases s) auto

section \<open>The type detector\<close>

text \<open>
  The legacy and OOXML office MIME strings that the detector compares for equality. Each
  of the three OOXML strings also contains one of the five substrings.
\<close>

lemma detect_image: "prefix ''image/'' m \<Longrightarrow> detectFileType (Some m) = Image"
  by (auto simp: detectFileType_def startsWith_prefix)

lemma detect_pdf: "detectFileType (Some ''application/pdf'') = Pdf"
  by (simp add: detectFileType_def startsWith_def)

lemma detect_document:
  assumes "\<not> prefix ''image/'' m" and "m \<noteq> ''application/pdf''"
    and "sublist ''document'' m \<or> sublist ''word'' m \<or> sublist ''text'' m \<or>
         sublist ''spreadsheet'' m \<or> sublist ''presentation'' m \<or>
         m = ''application/vnd.openxmlformats-officedocument.wordprocessingml.document'' \<or>
         m = ''application/vnd.openxmlformats-officedocument.spreadsheetml.sheet'' \<or>
         m = ''application/vnd.openxmlformats-officedocument.presentationml.presentation'' \<or>
         m = ''application/msword'' \<or> m = ''application/vnd.ms-excel'' \<or>
         m = ''application/vnd.ms-powerpoint''"
  shows "detectFileType (Some m) = Document"
proof -
  have "m \<noteq> []" using assms(3) by auto
  then show ?thesis
    using assms by (simp add: detectFileType_def startsWith_prefix includes_sublist)
qed

lemma detect_unknown:
  assumes "\<not> prefix ''image/'' m" and "m \<noteq> ''application/pdf''"
    and "\<not> (sublist ''document'' m \<or> sublist ''word'' m \<or> sublist ''text'' m \<or>
         sublist ''spreadsheet'' m \<or> sublist ''presentation'' m \<or>
         m = ''application/vnd.openxmlformats-officedocument.wordprocessingml.document'' \<or>
         m = ''application/vnd.openxmlformats-officedocument.spreadsheetml.sheet'' \<or>
         m = ''application/vnd.openxmlformats-officedocument.presentationml.presentation'' \<or>
         m = ''application/msword'' \<or> m = ''application/vnd.ms-excel'' \<or>
         m = ''application/vnd.ms-powerpoint'')"
  shows "detectFileType (Some m) = Unknown"
  using assms by (simp add: detectFileType_def startsWith_prefix includes_sublist)

text \<open>
  C2. \<open>detectFileType\<close> is a total function of the optional MIME hint: an absent hint
  gives \<open>Unknown\<close>; a hint that starts with \<open>image/\<close> gives \<open>Image\<close>; the hint
  \<open>application/pdf\<close> gives \<open>Pdf\<close>; a hint that matches neither of these and contains
  one of \<open>document\<close>, \<open>word\<close>, \<open>text\<close>, \<open>spreadsheet\<close>, \<open>presentation\<close>, or equals one
  of the six office MIME strings, gives \<open>Document\<close>; every other hint gives \<open>Unknown\<close>.
  "Starts with" and "contains" are the library's \<open>prefix\<close> and \<open>sublist\<close>.
\<close>

theorem detectFileType_table:
  "detectFileType None = Unknown \<and>
   (prefix ''image/'' a \<longrightarrow> detectFileType (Some a) = Image) \<and>
   detectFileType (Some ''application/pdf'') = Pdf \<and>
   (\<not> prefix ''image/'' b \<and> b \<noteq> ''application/pdf'' \<and>
    (sublist ''document'' b \<or> sublist ''word'' b \<or> sublist ''text'' b \<or>
     sublist ''spreadsheet'' b \<or> sublist ''presentation'' b \<or>
     b = ''application/vnd.openxmlformats-officedocument.wordprocessingml.document'' \<or>
     b = ''application/vnd.openxmlformats-officedocument.spreadsheetml.sheet'' \<or>
     b = ''application/vnd.openxmlformats-officedocument.presentationml.presentation'' \<or>
     b = ''application/msword'' \<or> b = ''application/vnd.ms-excel'' \<or>
     b = ''application/vnd.ms-powerpoint'')
      \<longrightarrow> detectFileType (Some b) = Document) \<and>
   (\<not> prefix ''image/'' c \<and> c \<noteq> ''application/pdf'' \<and>
    \<not> (sublist ''document'' c \<or> sublist ''word'' c \<or> sublist ''text'' c \<or>
     sublist ''spreadsheet'' c \<or> sublist ''presentation'' c \<or>
     c = ''application/vnd.openxmlformats-officedocument.wordprocessingml.document'' \<or>
     c = ''application/vnd.openxmlformats-officedocument.spreadsheetml.sheet'' \<or>
     c = ''application/vnd.openxmlformats-officedocument.presentationml.presentation'' \<or>
     c = ''application/msword'' \<or> c = ''application/vnd.ms-excel'' \<or>
     c = ''application/vnd.ms-powerpoint'')
      \<longrightarrow> detectFileType (Some c) = Unknown)"
proof (intro conjI impI)
  show "detectFileType None = Unknown" by (simp add: detectFileType_def)
  show "detectFileType (Some ''application/pdf'') = Pdf" by (rule detect_pdf)
next
  assume "prefix ''image/'' a"
  then show "detectFileType (Some a) = Image" by (rule detect_image)
next
  assume h: "\<not> prefix ''image/'' b \<and> b \<noteq> ''application/pdf'' \<and>
    (sublist ''document'' b \<or> sublist ''word'' b \<or> sublist ''text'' b \<or>
     sublist ''spreadsheet'' b \<or> sublist ''presentation'' b \<or>
     b = ''application/vnd.openxmlformats-officedocument.wordprocessingml.document'' \<or>
     b = ''application/vnd.openxmlformats-officedocument.spreadsheetml.sheet'' \<or>
     b = ''application/vnd.openxmlformats-officedocument.presentationml.presentation'' \<or>
     b = ''application/msword'' \<or> b = ''application/vnd.ms-excel'' \<or>
     b = ''application/vnd.ms-powerpoint'')"
  show "detectFileType (Some b) = Document"
    by (rule detect_document [OF conjunct1 [OF h] conjunct1 [OF conjunct2 [OF h]]
          conjunct2 [OF conjunct2 [OF h]]])
next
  assume h: "\<not> prefix ''image/'' c \<and> c \<noteq> ''application/pdf'' \<and>
    \<not> (sublist ''document'' c \<or> sublist ''word'' c \<or> sublist ''text'' c \<or>
     sublist ''spreadsheet'' c \<or> sublist ''presentation'' c \<or>
     c = ''application/vnd.openxmlformats-officedocument.wordprocessingml.document'' \<or>
     c = ''application/vnd.openxmlformats-officedocument.spreadsheetml.sheet'' \<or>
     c = ''application/vnd.openxmlformats-officedocument.presentationml.presentation'' \<or>
     c = ''application/msword'' \<or> c = ''application/vnd.ms-excel'' \<or>
     c = ''application/vnd.ms-powerpoint'')"
  show "detectFileType (Some c) = Unknown"
    by (rule detect_unknown [OF conjunct1 [OF h] conjunct1 [OF conjunct2 [OF h]]
          conjunct2 [OF conjunct2 [OF h]]])
qed

theorem detectFileType_table_witness:
  "prefix ''image/'' ''image/png'' \<and> detectFileType (Some ''image/png'') = Image \<and>
   sublist ''text'' ''text/plain'' \<and> detectFileType (Some ''text/plain'') = Document \<and>
   \<not> sublist ''text'' ''video/mp4'' \<and> detectFileType (Some ''video/mp4'') = Unknown"
proof -
  note t = detectFileType_table [of "''image/png''" "''text/plain''" "''video/mp4''"]
  have a: "prefix ''image/'' ''image/png''" by simp
  have b: "\<not> prefix ''image/'' ''text/plain'' \<and> ''text/plain'' \<noteq> ''application/pdf'' \<and>
    (sublist ''document'' ''text/plain'' \<or> sublist ''word'' ''text/plain'' \<or>
     sublist ''text'' ''text/plain'' \<or>
     sublist ''spreadsheet'' ''text/plain'' \<or> sublist ''presentation'' ''text/plain'' \<or>
     ''text/plain'' = ''application/vnd.openxmlformats-officedocument.wordprocessingml.document'' \<or>
     ''text/plain'' = ''application/vnd.openxmlformats-officedocument.spreadsheetml.sheet'' \<or>
     ''text/plain'' = ''application/vnd.openxmlformats-officedocument.presentationml.presentation'' \<or>
     ''text/plain'' = ''application/msword'' \<or> ''text/plain'' = ''application/vnd.ms-excel'' \<or>
     ''text/plain'' = ''application/vnd.ms-powerpoint'')"
    by (simp add: includes_sublist [symmetric] startsWith_def)
  have c: "\<not> prefix ''image/'' ''video/mp4'' \<and> ''video/mp4'' \<noteq> ''application/pdf'' \<and>
    \<not> (sublist ''document'' ''video/mp4'' \<or> sublist ''word'' ''video/mp4'' \<or>
     sublist ''text'' ''video/mp4'' \<or>
     sublist ''spreadsheet'' ''video/mp4'' \<or> sublist ''presentation'' ''video/mp4'' \<or>
     ''video/mp4'' = ''application/vnd.openxmlformats-officedocument.wordprocessingml.document'' \<or>
     ''video/mp4'' = ''application/vnd.openxmlformats-officedocument.spreadsheetml.sheet'' \<or>
     ''video/mp4'' = ''application/vnd.openxmlformats-officedocument.presentationml.presentation'' \<or>
     ''video/mp4'' = ''application/msword'' \<or> ''video/mp4'' = ''application/vnd.ms-excel'' \<or>
     ''video/mp4'' = ''application/vnd.ms-powerpoint'')"
    by (simp add: includes_sublist [symmetric] startsWith_def)
  have ra: "detectFileType (Some ''image/png'') = Image"
    using t a by (elim conjE) (rule mp)
  have rb: "detectFileType (Some ''text/plain'') = Document"
    using t b by (elim conjE) (erule mp, intro conjI)
  have rc: "detectFileType (Some ''video/mp4'') = Unknown"
    using t c by (elim conjE) (erule mp, intro conjI)
  have sb: "sublist ''text'' ''text/plain''"
    by (simp add: includes_sublist [symmetric] startsWith_def)
  have sc: "\<not> sublist ''text'' ''video/mp4''"
    by (simp add: includes_sublist [symmetric] startsWith_def)
  show ?thesis by (intro conjI a ra sb rb sc rc)
qed

section \<open>The MIME resolver\<close>

text \<open>
  C3. \<open>getMimeType\<close> returns a non-empty provided hint unchanged, whatever the detected
  type; with the hint absent or empty it returns \<open>application/pdf\<close> for \<open>pdf\<close>,
  \<open>image/jpeg\<close> for \<open>image\<close> and \<open>application/octet-stream\<close> for every other detected
  type, \<open>document\<close> and \<open>unknown\<close> among them.
\<close>

theorem getMimeType_table:
  "(h \<noteq> [] \<longrightarrow> getMimeType d (Some h) = h) \<and>
   getMimeType ''pdf'' None = ''application/pdf'' \<and>
   getMimeType ''pdf'' (Some []) = ''application/pdf'' \<and>
   getMimeType ''image'' None = ''image/jpeg'' \<and>
   getMimeType ''image'' (Some []) = ''image/jpeg'' \<and>
   (e \<noteq> ''pdf'' \<and> e \<noteq> ''image'' \<longrightarrow>
      getMimeType e None = ''application/octet-stream'' \<and>
      getMimeType e (Some []) = ''application/octet-stream'') \<and>
   getMimeType (kindName Document) None = ''application/octet-stream'' \<and>
   getMimeType (kindName Unknown) None = ''application/octet-stream'' \<and>
   getMimeType (kindName Pdf) None = ''application/pdf'' \<and>
   getMimeType (kindName Image) None = ''image/jpeg''"
  by (simp add: getMimeType_def truthyStr_def)

theorem getMimeType_table_witness:
  "''text/csv'' \<noteq> [] \<and> getMimeType ''pdf'' (Some ''text/csv'') = ''text/csv'' \<and>
   ''unknown'' \<noteq> ''pdf'' \<and> ''unknown'' \<noteq> ''image'' \<and>
   getMimeType ''unknown'' None = ''application/octet-stream'' \<and>
   getMimeType ''unknown'' (Some []) = ''application/octet-stream''"
  using getMimeType_table [of "''text/csv''" "''pdf''" "''unknown''"] by simp

section \<open>The pan/zoom viewer: scale and offset\<close>

lemmas handler_defs =
  handleZoomIn_def handleZoomOut_def handleReset_def handleMouseDown_def
  handleMouseMove_def handleMouseUp_def handleWheel_def handleTouchStart_def
  handleTouchMove_def handleTouchEnd_def

lemmas zoom_consts = minScale_def maxScale_def scaleStep_def

lemmas zoom_eval =
  zoomRun_def zoomMounted_def initialZoom_def zoomStep_def resetPositionEffect_def
  origin_def handler_defs zoom_consts Let_def

lemma dispatch_scale_range:
  "1 / 2 \<le> scale s \<Longrightarrow> scale s \<le> 5 \<Longrightarrow>
   1 / 2 \<le> scale (dispatch ev s) \<and> scale (dispatch ev s) \<le> 5"
  by (cases ev) (auto simp: handler_defs zoom_consts Let_def)

lemma resetPositionEffect_scale [simp]: "scale (resetPositionEffect s) = scale s"
  by (simp add: resetPositionEffect_def)

lemma zoomStep_scale [simp]: "scale (zoomStep ev s) = scale (dispatch ev s)"
  by (simp add: zoomStep_def Let_def)

lemma zoomRun_snoc: "zoomRun (evs @ [ev]) = zoomStep ev (zoomRun evs)"
  by (simp add: zoomRun_def)

lemma zoomRun_Nil: "zoomRun [] = zoomMounted"
  by (simp add: zoomRun_def)

lemma zoomMounted_eq: "zoomMounted = initialZoom"
  by (simp add: zoomMounted_def resetPositionEffect_def initialZoom_def)

text \<open>
  C5. Starting from the mounted viewer, whose scale is \<open>1\<close>, the scale after any finite
  sequence of events lies between \<open>0.5\<close> and \<open>5\<close>. The sequences of zoom-in clicks,
  zoom-out clicks and wheel events are among them; the other events do not touch the
  scale, except the reset, which sets it to \<open>1\<close>.
\<close>

theorem scale_within_bounds:
  "1 / 2 \<le> scale (zoomRun evs) \<and> scale (zoomRun evs) \<le> 5"
proof (induction evs rule: rev_induct)
  case Nil
  show ?case by (simp add: zoomRun_Nil zoomMounted_eq initialZoom_def)
next
  case (snoc ev evs)
  then show ?case
    using dispatch_scale_range [of "zoomRun evs" ev] by (simp add: zoomRun_snoc)
qed

text \<open>
  Every scale the viewer reaches is a whole number of quarters, so each sum and
  comparison the handlers make is exact in binary floating point too.
\<close>

lemma quarter_succ: "\<exists>j::int. of_int k / 4 + scaleStep = of_int j / 4"
  by (rule exI [of _ "k + 1"]) (simp add: scaleStep_def add_divide_distrib)

lemma quarter_pred: "\<exists>j::int. of_int k / 4 - scaleStep = of_int j / 4"
  by (rule exI [of _ "k - 1"]) (simp add: scaleStep_def diff_divide_distrib)

lemma quarter_pred_neg: "\<exists>j::int. of_int k / 4 + - scaleStep = of_int j / 4"
  using quarter_pred [of k] by simp

lemma quarter_max: "\<exists>j::int. maxScale = of_int j / 4"
  by (rule exI [of _ 20]) (simp add: maxScale_def)

lemma quarter_min: "\<exists>j::int. minScale = of_int j / 4"
  by (rule exI [of _ 2]) (simp add: minScale_def)

lemma quarter_one: "\<exists>j::int. (1::rat) = of_int j / 4"
  by (rule exI [of _ 4]) simp

lemma dispatch_quarter:
  assumes "\<exists>k::int. scale s = of_int k / 4"
  shows "\<exists>k::int. scale (dispatch ev s) = of_int k / 4"
proof -
  from assms obtain k :: int where k: "scale s = of_int k / 4" ..
  show ?thesis
  proof (cases ev)
    case ClickZoomIn
    then show ?thesis
      using quarter_succ [of k] quarter_max by (simp add: handleZoomIn_def k min_def)
  next
    case ClickZoomOut
    then show ?thesis
      using quarter_pred [of k] quarter_min by (simp add: handleZoomOut_def k max_def)
  next
    case ClickReset
    then show ?thesis using quarter_one by (simp add: handleReset_def)
  next
    case (Wheel dy)
    then show ?thesis
      using quarter_succ [of k] quarter_pred_neg [of k] quarter_max quarter_min
      by (simp add: handleWheel_def k min_def max_def Let_def)
  qed (use assms in \<open>simp_all add: handler_defs Let_def\<close>)
qed

lemma scale_quarter_steps: "\<exists>k::int. scale (zoomRun evs) = of_int k / 4"
proof (induction evs rule: rev_induct)
  case Nil
  show ?case using quarter_one by (simp add: zoomRun_Nil zoomMounted_eq initialZoom_def)
next
  case (snoc ev evs)
  then have "\<exists>k::int. scale (dispatch ev (zoomRun evs)) = of_int k / 4"
    by (rule dispatch_quarter)
  then show ?case unfolding zoomRun_snoc zoomStep_scale .
qed

lemma zoomStep_offset_inv:
  assumes "scale s = 1 \<longrightarrow> position s = origin"
  shows "scale (zoomStep ev s) = 1 \<longrightarrow> position (zoomStep ev s) = origin"
  using assms
  by (cases ev)
     (auto simp: zoomStep_def resetPositionEffect_def handler_defs Let_def split: if_splits)

lemma settled_offset_zero:
  "scale (zoomRun evs) = 1 \<longrightarrow> position (zoomRun evs) = origin"
proof (induction evs rule: rev_induct)
  case Nil
  show ?case by (simp add: zoomRun_Nil zoomMounted_eq initialZoom_def)
next
  case (snoc ev evs)
  then show ?case unfolding zoomRun_snoc by (rule zoomStep_offset_inv)
qed

lemma last_zoomFrames: "last (zoomFrames ev s) = zoomStep ev s"
  by (simp add: zoomFrames_def zoomStep_def resetPositionEffect_def Let_def)

lemma zoomFrames_nonempty: "zoomFrames ev s \<noteq> []"
  by (simp add: zoomFrames_def Let_def)

lemma last_zoomRenders:
  "last (s # zoomRenders evs s) = foldl (\<lambda>s ev. zoomStep ev s) s evs"
proof (induction evs arbitrary: s)
  case Nil
  show ?case by simp
next
  case (Cons ev evs)
  have "last (s # zoomFrames ev s @ zoomRenders evs (zoomStep ev s)) =
      last (zoomStep ev s # zoomRenders evs (zoomStep ev s))"
    using zoomFrames_nonempty [of ev s] last_zoomFrames [of ev s]
    by (cases "zoomRenders evs (zoomStep ev s)") (simp_all add: last_append)
  then show ?case using Cons.IH [of "zoomStep ev s"] by simp
qed

lemma last_zoomRendered: "last (zoomRendered evs) = zoomRun evs"
  using last_zoomRenders [of zoomMounted evs]
  by (simp add: zoomRendered_def zoomRun_def)

lemma resetFollows_settled:
  assumes "scale s = 1 \<longrightarrow> position s = origin"
  shows "resetFollows (s # zoomRenders evs s)"
  using assms
proof (induction evs arbitrary: s)
  case Nil
  then show ?case by simp
next
  case (Cons ev evs)
  let ?e = "zoomStep ev s"
  have e: "scale ?e = 1 \<longrightarrow> position ?e = origin"
    using Cons.prems by (rule zoomStep_offset_inv)
  note ih = Cons.IH [OF e]
  show ?case
  proof (cases "scale (dispatch ev s) \<noteq> scale s \<and> scale (dispatch ev s) = 1")
    case True
    then have f: "zoomFrames ev s = [dispatch ev s, ?e]"
      by (simp add: zoomFrames_def zoomStep_def Let_def)
    have "scale (dispatch ev s) = 1 \<and> position (dispatch ev s) \<noteq> origin \<longrightarrow>
        scale ?e = 1 \<and> position ?e = origin"
      using e by simp
    then show ?thesis using Cons.prems ih by (auto simp: f)
  next
    case False
    then have f: "zoomFrames ev s = [?e]"
      by (auto simp: zoomFrames_def zoomStep_def resetPositionEffect_def Let_def)
    show ?thesis using Cons.prems ih by (auto simp: f)
  qed
qed

lemma resetFollows_zoomRendered: "resetFollows (zoomRendered evs)"
proof -
  have "scale zoomMounted = 1 \<longrightarrow> position zoomMounted = origin"
    by (simp add: zoomMounted_eq initialZoom_def)
  then have "resetFollows (zoomMounted # zoomRenders evs zoomMounted)"
    by (rule resetFollows_settled)
  then show ?thesis by (simp add: zoomRendered_def initialZoom_def)
qed

lemmas render_eval = zoomRendered_def zoomFrames_def zoom_eval

text \<open>
  C6, as stated, at the render of a zoom-out. The claim gives every reachable state with
  scale \<open>1\<close> the offset \<open>(0, 0)\<close>, also immediately after zoom-out events return the scale
  to \<open>1\<close>. \<open>handleZoomOut\<close> and \<open>handleWheel\<close> only call \<open>setScale\<close>; the offset is reset by
  the effect, after the render with the new scale has been committed. After a drag at
  scale \<open>1.25\<close> to \<open>(10, 20)\<close>, the render caused by a zoom-out click, and likewise by a
  wheel event, has scale \<open>1\<close> and still the offset \<open>(10, 20)\<close>.
\<close>

theorem zoom_out_render_keeps_offset:
  "dispatch ClickZoomOut (zoomRun [ClickZoomIn, MouseDown 0 0, MouseMove 10 20, MouseUp]) \<in>
     set (zoomRendered [ClickZoomIn, MouseDown 0 0, MouseMove 10 20, MouseUp, ClickZoomOut]) \<and>
   scale (dispatch ClickZoomOut
     (zoomRun [ClickZoomIn, MouseDown 0 0, MouseMove 10 20, MouseUp])) = 1 \<and>
   position (dispatch ClickZoomOut
     (zoomRun [ClickZoomIn, MouseDown 0 0, MouseMove 10 20, MouseUp])) =
     \<lparr>coord_x = 10, coord_y = 20\<rparr> \<and>
   \<lparr>coord_x = 10, coord_y = 20\<rparr> \<noteq> origin \<and>
   dispatch (Wheel 100) (zoomRun [ClickZoomIn, MouseDown 0 0, MouseMove 10 20, MouseUp]) \<in>
     set (zoomRendered [ClickZoomIn, MouseDown 0 0, MouseMove 10 20, MouseUp, Wheel 100]) \<and>
   scale (dispatch (Wheel 100)
     (zoomRun [ClickZoomIn, MouseDown 0 0, MouseMove 10 20, MouseUp])) = 1 \<and>
   position (dispatch (Wheel 100)
     (zoomRun [ClickZoomIn, MouseDown 0 0, MouseMove 10 20, MouseUp])) =
     \<lparr>coord_x = 10, coord_y = 20\<rparr>"
  by (simp add: render_eval)

text \<open>
  C6, amended. In every state in which the viewer handles an event, that is after the
  effect has run, a scale of exactly \<open>1\<close> comes with the offset \<open>(0, 0)\<close>; this state is the
  last render of every event sequence. Among all renders, one at scale \<open>1\<close> with another
  offset is followed at once by a render at scale \<open>1\<close> with the offset \<open>(0, 0)\<close>. The reset
  handler sets scale \<open>1\<close> and offset \<open>(0, 0)\<close> in one render. The example is a drag at scale
  \<open>1.25\<close> that moves the offset to \<open>(10, 20)\<close>, followed by a zoom-out click, and the same
  drag followed by the reset.
\<close>

theorem offset_zero_once_settled:
  "(scale (zoomRun evs) = 1 \<longrightarrow> position (zoomRun evs) = origin) \<and>
   last (zoomRendered evs) = zoomRun evs \<and>
   resetFollows (zoomRendered evs) \<and>
   scale (handleReset s) = 1 \<and> position (handleReset s) = origin"
  using settled_offset_zero [of evs] last_zoomRendered [of evs]
    resetFollows_zoomRendered [of evs]
  by (simp add: handleReset_def)

theorem offset_zero_once_settled_witness:
  "scale (zoomRun [ClickZoomIn, MouseDown 0 0, MouseMove 10 20, MouseUp]) = 5 / 4 \<and>
   position (zoomRun [ClickZoomIn, MouseDown 0 0, MouseMove 10 20, MouseUp]) =
     \<lparr>coord_x = 10, coord_y = 20\<rparr> \<and>
   scale (zoomRun [ClickZoomIn, MouseDown 0 0, MouseMove 10 20, MouseUp, ClickZoomOut]) = 1 \<and>
   position (zoomRun [ClickZoomIn, MouseDown 0 0, MouseMove 10 20, MouseUp, ClickZoomOut]) =
     origin \<and>
   scale (zoomRun [ClickZoomIn, MouseDown 0 0, MouseMove 10 20, MouseUp, ClickReset]) = 1 \<and>
   position (zoomRun [ClickZoomIn, MouseDown 0 0, MouseMove 10 20, MouseUp, ClickReset]) =
     origin \<and>
   zoomRendered [ClickZoomIn, ClickZoomOut] =
     [initialZoom, initialZoom, initialZoom\<lparr>scale := 5 / 4\<rparr>, initialZoom, initialZoom] \<and>
   resetFollows (zoomRendered [ClickZoomIn, MouseDown 0 0, MouseMove 10 20, MouseUp, ClickZoomOut])"
proof -
  let ?d = "[ClickZoomIn, MouseDown 0 0, MouseMove 10 20, MouseUp]"
  have a: "scale (zoomRun ?d) = 5 / 4"
    and b: "position (zoomRun ?d) = \<lparr>coord_x = 10, coord_y = 20\<rparr>"
    by (simp_all add: zoom_eval)
  have c: "scale (zoomRun (?d @ [ClickZoomOut])) = 1"
    by (simp add: zoom_eval)
  have d: "scale (zoomRun (?d @ [ClickReset])) = 1"
    by (simp add: zoom_eval)
  have e: "zoomRendered [ClickZoomIn, ClickZoomOut] =
     [initialZoom, initialZoom, initialZoom\<lparr>scale := 5 / 4\<rparr>, initialZoom, initialZoom]"
    by (simp add: render_eval)
  note t = offset_zero_once_settled
  note t1 = t [of "?d @ [ClickZoomOut]", THEN conjunct1, THEN mp, OF c]
  note t2 = t [of "?d @ [ClickReset]", THEN conjunct1, THEN mp, OF d]
  note t3 = t [of "?d @ [ClickZoomOut]", THEN conjunct2, THEN conjunct2, THEN conjunct1]
  show ?thesis
    using a b c d e t1 t2 t3 by simp
qed

text \<open>
  C7. In a state whose scale is at most \<open>1\<close>, a mouse-down, a mouse-move, a touch-start
  and a touch-move each leave the whole state as it was, the offset and the drag flag
  included, both as handlers and as full steps. Put the other way round: a pointer-down
  that turns the drag flag on, and a pointer-move that changes the offset, happen only at
  a scale above \<open>1\<close>, the move only while dragging.
\<close>

theorem no_pan_at_or_below_native_scale:
  "(scale s \<le> 1 \<longrightarrow>
      handleMouseDown cx cy s = s \<and> handleMouseMove cx cy s = s \<and>
      handleTouchStart ts s = s \<and> handleTouchMove ts s = s \<and>
      zoomStep (MouseDown cx cy) s = s \<and> zoomStep (MouseMove cx cy) s = s \<and>
      zoomStep (TouchStart ts) s = s \<and> zoomStep (TouchMove ts) s = s) \<and>
   (isDragging (handleMouseDown cx cy t) \<and> \<not> isDragging t \<longrightarrow> 1 < scale t) \<and>
   (isDragging (handleTouchStart ts t) \<and> \<not> isDragging t \<longrightarrow> 1 < scale t \<and> length ts = 1) \<and>
   (position (handleMouseMove cx cy t) \<noteq> position t \<longrightarrow> isDragging t \<and> 1 < scale t) \<and>
   (position (handleTouchMove ts t) \<noteq> position t \<longrightarrow>
      isDragging t \<and> 1 < scale t \<and> length ts = 1)"
  by (auto simp: zoomStep_def handler_defs split: if_splits)

theorem no_pan_at_or_below_native_scale_witness:
  "scale (zoomRun [ClickZoomOut]) \<le> 1 \<and>
   zoomStep (MouseDown 3 4) (zoomRun [ClickZoomOut]) = zoomRun [ClickZoomOut] \<and>
   zoomStep (MouseMove 30 40) (zoomRun [ClickZoomOut]) = zoomRun [ClickZoomOut] \<and>
   zoomStep (TouchStart [\<lparr>coord_x = 3, coord_y = 4\<rparr>]) (zoomRun [ClickZoomOut]) =
     zoomRun [ClickZoomOut] \<and>
   zoomStep (TouchMove [\<lparr>coord_x = 30, coord_y = 40\<rparr>]) (zoomRun [ClickZoomOut]) =
     zoomRun [ClickZoomOut] \<and>
   isDragging (handleMouseDown 3 4 (zoomRun [ClickZoomIn])) \<and>
   \<not> isDragging (zoomRun [ClickZoomIn]) \<and> 1 < scale (zoomRun [ClickZoomIn]) \<and>
   position (handleMouseMove 30 40 (zoomRun [ClickZoomIn, MouseDown 3 4])) \<noteq>
     position (zoomRun [ClickZoomIn, MouseDown 3 4]) \<and>
   isDragging (zoomRun [ClickZoomIn, MouseDown 3 4]) \<and>
   1 < scale (zoomRun [ClickZoomIn, MouseDown 3 4])"
proof -
  have le: "scale (zoomRun [ClickZoomOut]) \<le> 1"
    by (simp add: zoom_eval)
  note low = no_pan_at_or_below_native_scale
    [of "zoomRun [ClickZoomOut]" _ _ _ "zoomRun [ClickZoomIn]", THEN conjunct1, THEN mp, OF le]
  have dn: "isDragging (handleMouseDown 3 4 (zoomRun [ClickZoomIn])) \<and>
      \<not> isDragging (zoomRun [ClickZoomIn])"
    by (simp add: zoom_eval)
  have mv: "position (handleMouseMove 30 40 (zoomRun [ClickZoomIn, MouseDown 3 4])) \<noteq>
      position (zoomRun [ClickZoomIn, MouseDown 3 4])"
    by (simp add: zoom_eval)
  note up1 = no_pan_at_or_below_native_scale
    [of "zoomRun [ClickZoomOut]" 3 4 "[]" "zoomRun [ClickZoomIn]",
     THEN conjunct2, THEN conjunct1, THEN mp, OF dn]
  note up2 = no_pan_at_or_below_native_scale
    [of "zoomRun [ClickZoomOut]" 30 40 "[]" "zoomRun [ClickZoomIn, MouseDown 3 4]",
     THEN conjunct2, THEN conjunct2, THEN conjunct2, THEN conjunct1, THEN mp, OF mv]
  show ?thesis
    using le low [of 3 4 "[\<lparr>coord_x = 3, coord_y = 4\<rparr>]"]
      low [of 30 40 "[\<lparr>coord_x = 30, coord_y = 40\<rparr>]"] dn mv up1 up2
    by (intro conjI) (elim conjE, assumption)+
qed

section \<open>The modal component: renders and effects\<close>

declare rerender.simps [simp del]

lemmas modal_eval =
  modalRun_def rerender.simps commit_def effect1Due_def effect2Due_def sameDeps_def
  normalizationEffect_def normalizationCleanup_def closeEffect_def createObjectURL_def
  revokeObjectURL_def isBlobUrl_def startsWith_def blobUrl_def unmounted_def initialState_def
  detectFileType_def getMimeType_def truthyStr_def dataUrl_def liveUrls_def Let_def
  openWith_def closedWith_def

lemma openWith_sel [simp]:
  "isOpen (openWith v mt)" "mediaFile (openWith v mt) = v" "mimeType (openWith v mt) = mt"
  by (simp_all add: openWith_def)

lemma closedWith_sel [simp]:
  "\<not> isOpen (closedWith v mt)" "mediaFile (closedWith v mt) = v"
  "mimeType (closedWith v mt) = mt"
  by (simp_all add: closedWith_def)

lemma sameValue_refl: "sameValue v v"
  by (cases v) auto

lemma sameDeps_refl: "sameDeps p p"
  by (simp add: sameDeps_def sameValue_refl)

lemma rerender_stable: "state (commit p inst) = state inst \<Longrightarrow> rerender p inst = commit p inst"
  by (subst rerender.simps) simp

lemma rerender_again: "state (commit p inst) \<noteq> state inst \<Longrightarrow> rerender p inst = rerender p (commit p inst)"
  by (subst rerender.simps) simp

lemma sameDeps_isOpen: "sameDeps d p \<Longrightarrow> isOpen d = isOpen p"
  by (simp add: sameDeps_def)

lemma commit_idle:
  assumes "consistent inst" and "\<not> effect1Due p inst"
  shows "commit p inst = inst"
  using assms
  by (auto simp: commit_def Let_def consistent_def effect1Due_def effect2Due_def sameDeps_def
      split: option.splits)

lemma rerender_idle:
  assumes "consistent inst" and "\<not> effect1Due p inst"
  shows "rerender p inst = inst"
  using commit_idle [OF assms] by (simp add: rerender_stable)

lemma effect2Due_consistent:
  assumes "consistent inst" "effect1Due p inst" 
  shows "(if effect2Due p inst then Some (isOpen p, documentUrl (state inst)) else effect2_deps inst)
     = Some (isOpen p, documentUrl (state inst))"
  using assms
  by (auto simp: consistent_def effect1Due_def effect2Due_def split: option.splits)

lemma closeEffect_open: "isOpen p \<Longrightarrow> closeEffect p u w = w"
  by (simp add: closeEffect_def)

lemma commit_open:
  assumes "consistent inst" and "effect1Due p inst" and "isOpen p"
  shows "commit p inst =
    \<lparr>state = fst (normalizationEffect p (state inst, cleanedRegistry inst)),
     registry = snd (normalizationEffect p (state inst, cleanedRegistry inst)),
     effect1_deps = Some p,
     effect1_captured = documentUrl (state inst),
     effect2_deps = Some (True, documentUrl (state inst))\<rparr>"
  using assms effect2Due_consistent [OF assms(1,2)]
  by (simp add: commit_def Let_def closeEffect_open cleanedRegistry_def)

lemma commit_settle_open:
  assumes "isOpen p" and "effect1_deps inst = Some p" and "effect2_deps inst = Some (True, u)"
  shows "commit p inst = inst\<lparr>effect2_deps := Some (True, documentUrl (state inst))\<rparr>"
  using assms
  by (auto simp: commit_def Let_def closeEffect_open effect1Due_def effect2Due_def sameDeps_refl)

lemma rerender_open:
  assumes "consistent inst" and "effect1Due p inst" and "isOpen p"
  shows "rerender p inst =
    \<lparr>state = fst (normalizationEffect p (state inst, cleanedRegistry inst)),
     registry = snd (normalizationEffect p (state inst, cleanedRegistry inst)),
     effect1_deps = Some p,
     effect1_captured = documentUrl (state inst),
     effect2_deps =
       Some (True, documentUrl (fst (normalizationEffect p (state inst, cleanedRegistry inst))))\<rparr>"
proof (cases "state (commit p inst) = state inst")
  case True
  then show ?thesis
    using commit_open [OF assms] by (simp add: rerender_stable)
next
  case False
  let ?i1 = "commit p inst"
  have i1: "commit p ?i1 = ?i1\<lparr>effect2_deps := Some (True, documentUrl (state ?i1))\<rparr>"
    by (rule commit_settle_open [OF assms(3)]) (simp_all add: commit_open [OF assms])
  then have "state (commit p ?i1) = state ?i1" by simp
  then have "rerender p ?i1 = commit p ?i1" by (rule rerender_stable)
  then show ?thesis
    using False i1 by (simp add: rerender_again commit_open [OF assms])
qed

lemma normalizationEffect_closed: "\<not> isOpen p \<Longrightarrow> normalizationEffect p w = w"
  by (simp add: normalizationEffect_def)

lemma commit_closed:
  assumes "consistent inst" and "effect1Due p inst" and "\<not> isOpen p"
  shows "commit p inst =
    \<lparr>state = fst (if effect2Due p inst
                  then closeEffect p (documentUrl (state inst)) (state inst, cleanedRegistry inst)
                  else (state inst, cleanedRegistry inst)),
     registry = snd (if effect2Due p inst
                  then closeEffect p (documentUrl (state inst)) (state inst, cleanedRegistry inst)
                  else (state inst, cleanedRegistry inst)),
     effect1_deps = Some p,
     effect1_captured = documentUrl (state inst),
     effect2_deps = Some (False, documentUrl (state inst))\<rparr>"
  using assms effect2Due_consistent [OF assms(1,2)]
  by (simp add: commit_def Let_def normalizationEffect_closed cleanedRegistry_def)

lemma commit_settle_closed:
  assumes "\<not> isOpen p" and "effect1_deps inst = Some p" and "effect2_deps inst = Some (False, u)"
    and "\<not> isBlobUrl (documentUrl (state inst))"
  shows "commit p inst = inst\<lparr>effect2_deps := Some (False, documentUrl (state inst))\<rparr>"
  using assms
  by (auto simp: commit_def Let_def closeEffect_def effect1Due_def effect2Due_def sameDeps_refl)

lemma isBlobUrl_Nil [simp]: "\<not> isBlobUrl []"
  by (simp add: isBlobUrl_def)

lemma rerender_closed:
  assumes "consistent inst" and "effect1Due p inst" and "\<not> isOpen p"
  shows "rerender p inst =
    (let w = (if effect2Due p inst
              then closeEffect p (documentUrl (state inst)) (state inst, cleanedRegistry inst)
              else (state inst, cleanedRegistry inst))
     in \<lparr>state = fst w, registry = snd w, effect1_deps = Some p,
         effect1_captured = documentUrl (state inst),
         effect2_deps = Some (False, documentUrl (fst w))\<rparr>)"
proof (cases "state (commit p inst) = state inst")
  case True
  then show ?thesis
    using commit_closed [OF assms] by (simp add: rerender_stable Let_def)
next
  case False
  let ?i1 = "commit p inst"
  from False have chg: "effect2Due p inst \<and> isBlobUrl (documentUrl (state inst))"
    using commit_closed [OF assms] by (auto simp: closeEffect_def split: if_splits)
  then have doc1: "documentUrl (state ?i1) = []"
    using commit_closed [OF assms] assms(3) by (simp add: closeEffect_def)
  have "\<not> isBlobUrl (documentUrl (state ?i1))" by (simp add: doc1)
  moreover have "effect1_deps ?i1 = Some p"
    and "effect2_deps ?i1 = Some (False, documentUrl (state inst))"
    by (simp_all add: commit_closed [OF assms])
  ultimately have i1: "commit p ?i1 = ?i1\<lparr>effect2_deps := Some (False, documentUrl (state ?i1))\<rparr>"
    by (intro commit_settle_closed [OF assms(3)])
  then have "state (commit p ?i1) = state ?i1" by simp
  then have "rerender p ?i1 = commit p ?i1" by (rule rerender_stable)
  then show ?thesis
    using False i1 by (simp add: rerender_again commit_closed [OF assms] Let_def)
qed

lemma modalRun_snoc: "modalRun (ps @ [p]) = rerender p (modalRun ps)"
  by (simp add: modalRun_def)

lemma modalRun_Nil: "modalRun [] = unmounted"
  by (simp add: modalRun_def)

lemma consistent_unmounted: "consistent unmounted"
  by (simp add: consistent_def unmounted_def)

lemma consistent_rerender:
  assumes "consistent inst"
  shows "consistent (rerender p inst)"
proof (cases "effect1Due p inst")
  case False
  then show ?thesis using assms by (simp add: rerender_idle)
next
  case True
  show ?thesis
  proof (cases "isOpen p")
    case True
    show ?thesis
      by (simp add: rerender_open [OF assms \<open>effect1Due p inst\<close> True] consistent_def True)
  next
    case False
    show ?thesis
      by (simp add: rerender_closed [OF assms \<open>effect1Due p inst\<close> False] consistent_def False Let_def)
  qed
qed

lemma consistent_modalRun: "consistent (modalRun ps)"
  by (induction ps rule: rev_induct)
    (simp_all add: modalRun_Nil modalRun_snoc consistent_unmounted consistent_rerender)

text \<open>What the normalization effect leaves behind, by the outcome of the try block.\<close>

lemma normalizationEffect_SetDocumentUrl:
  assumes "isOpen p" "truthy (mediaFile p)"
    and "processMediaFile (mediaFile p) (mimeType p) (detectFileType (mimeType p)) = Inr (SetDocumentUrl u)"
  shows "normalizationEffect p (st, reg) =
    (st\<lparr>documentUrl := u, isLoading := False, error := [],
        fileType := detectFileType (mimeType p)\<rparr>, reg)"
  using assms by (simp add: normalizationEffect_def Let_def)

lemma normalizationEffect_CreateObjectUrl:
  assumes "isOpen p" "truthy (mediaFile p)"
    and "processMediaFile (mediaFile p) (mimeType p) (detectFileType (mimeType p)) = Inr (CreateObjectUrl b)"
  shows "normalizationEffect p (st, reg) =
    (st\<lparr>documentUrl := blobUrl (issued reg), isLoading := False, error := [],
        fileType := detectFileType (mimeType p)\<rparr>,
     reg\<lparr>live := live reg @ [(blobUrl (issued reg), b)], issued := Suc (issued reg)\<rparr>)"
  using assms by (simp add: normalizationEffect_def Let_def createObjectURL_def)

lemma normalizationEffect_SetError:
  assumes "isOpen p" "truthy (mediaFile p)"
    and "processMediaFile (mediaFile p) (mimeType p) (detectFileType (mimeType p)) = Inr (SetError m)"
  shows "normalizationEffect p (st, reg) =
    (st\<lparr>isLoading := False, error := m, fileType := detectFileType (mimeType p)\<rparr>, reg)"
  using assms by (simp add: normalizationEffect_def Let_def)

lemma normalizationEffect_thrown:
  assumes "isOpen p" "truthy (mediaFile p)"
    and "processMediaFile (mediaFile p) (mimeType p) (detectFileType (mimeType p)) = Inl e"
  shows "normalizationEffect p (st, reg) =
    (st\<lparr>isLoading := False, error := ''Failed to load document'',
        fileType := detectFileType (mimeType p)\<rparr>, reg)"
  using assms by (simp add: normalizationEffect_def Let_def)

lemma normalizationEffect_falsy:
  "\<not> truthy (mediaFile p) \<Longrightarrow> normalizationEffect p w = w"
  by (simp add: normalizationEffect_def)

lemma processMediaFile_string:
  "processMediaFile (JStr s) mt (detectFileType mt) = Inr (SetDocumentUrl (stringLocator s mt))"
  by (simp add: stringLocator_def dataUrl_def)

lemma normalizationEffect_string:
  assumes "isOpen p" and "mediaFile p = JStr s" and "s \<noteq> []"
  shows "documentUrl (fst (normalizationEffect p (st, reg))) = stringLocator s (mimeType p)"
proof -
  have "processMediaFile (mediaFile p) (mimeType p) (detectFileType (mimeType p)) =
      Inr (SetDocumentUrl (stringLocator s (mimeType p)))"
    using assms(2) by (simp only: processMediaFile_string)
  moreover have "truthy (mediaFile p)" using assms by simp
  ultimately show ?thesis
    using assms(1) by (simp add: normalizationEffect_SetDocumentUrl)
qed

lemma processMediaFile_noBranch:
  "matchesNoBranch v \<Longrightarrow> processMediaFile v mt k = Inr (SetError ''Unsupported media file format'')"
  by (cases v) (auto simp: matchesNoBranch_def)

lemma sameValue_JStr: "sameValue v (JStr s) \<Longrightarrow> v = JStr s"
  by (cases v) auto

lemma effect1_deps_rerender:
  assumes "consistent inst"
  shows "\<exists>d. effect1_deps (rerender p inst) = Some d \<and> sameDeps d p"
proof (cases "effect1Due p inst")
  case False
  then show ?thesis using assms
    by (auto simp: rerender_idle effect1Due_def split: option.splits)
next
  case True
  show ?thesis
  proof (cases "isOpen p")
    case True
    show ?thesis
      by (simp add: rerender_open [OF assms \<open>effect1Due p inst\<close> True] sameDeps_refl)
  next
    case False
    show ?thesis
      by (simp add: rerender_closed [OF assms \<open>effect1Due p inst\<close> False] sameDeps_refl Let_def)
  qed
qed

lemma stringInv_rerender:
  assumes "consistent inst" and "stringInv inst"
  shows "stringInv (rerender p inst)"
proof (cases "effect1Due p inst")
  case False
  then show ?thesis using assms by (simp add: rerender_idle)
next
  case True
  show ?thesis
  proof (cases "isOpen p")
    case True
    show ?thesis
      unfolding stringInv_def rerender_open [OF assms(1) \<open>effect1Due p inst\<close> True]
      by (auto simp: normalizationEffect_string)
  next
    case False
    show ?thesis
      unfolding stringInv_def rerender_closed [OF assms(1) \<open>effect1Due p inst\<close> False]
      by (simp add: Let_def False)
  qed
qed

lemma stringInv_modalRun: "stringInv (modalRun ps)"
proof (induction ps rule: rev_induct)
  case Nil
  show ?case by (simp add: modalRun_Nil stringInv_def unmounted_def)
next
  case (snoc p ps)
  then show ?case
    by (simp add: modalRun_snoc stringInv_rerender consistent_modalRun)
qed

lemma open_string_payload_locator:
  assumes "isOpen p" and "mediaFile p = JStr s" and "s \<noteq> []"
  shows "documentUrl (state (modalRun (ps @ [p]))) =
    (if startsWith s ''data:'' then s
     else ''data:'' @ getMimeType (kindName (detectFileType (mimeType p))) (mimeType p) @
          '';base64,'' @ s)"
proof -
  obtain d where d: "effect1_deps (modalRun (ps @ [p])) = Some d" and same: "sameDeps d p"
    using effect1_deps_rerender [OF consistent_modalRun, of p ps] by (auto simp: modalRun_snoc)
  from same assms have "isOpen d" and "mediaFile d = JStr s" and "mimeType d = mimeType p"
    by (auto simp: sameDeps_def dest: sameValue_JStr)
  with stringInv_modalRun [of "ps @ [p]"] d assms(3)
  have "documentUrl (state (modalRun (ps @ [p]))) = stringLocator s (mimeType p)"
    unfolding stringInv_def by metis
  then show ?thesis by (simp add: stringLocator_def)
qed

lemma falsy_payload_skipped:
  assumes "isOpen q" and "\<not> truthy (mediaFile q)"
  shows "state (modalRun (ps @ [q])) = state (modalRun ps)"
proof (cases "effect1Due q (modalRun ps)")
  case True
  then show ?thesis
    by (simp add: modalRun_snoc rerender_open [OF consistent_modalRun True assms(1)]
        normalizationEffect_falsy [OF assms(2)])
next
  case False
  then show ?thesis by (simp add: modalRun_snoc rerender_idle [OF consistent_modalRun])
qed

section \<open>String payloads\<close>

text \<open>
  C4, as stated, at the empty string. The claim gives every string payload that does not
  begin with \<open>data:\<close> the locator \<open>data:\<close>, the resolved MIME type, \<open>;base64,\<close> and the
  payload. The empty string does not begin with \<open>data:\<close>, but it is falsy, so the guard
  \<open>mediaFile && isOpen\<close> skips the normalization: with the hint \<open>image/png\<close> the locator
  of a freshly mounted, open modal stays empty instead of becoming \<open>data:image/png;base64,\<close>.
\<close>

theorem empty_string_payload_not_normalized:
  "\<not> startsWith [] ''data:'' \<and>
   documentUrl (state (modalRun [openWith (JStr []) (Some ''image/png'')])) \<noteq>
     ''data:'' @ getMimeType (kindName (detectFileType (Some ''image/png''))) (Some ''image/png'') @
     '';base64,'' @ [] \<and>
   documentUrl (state (modalRun [openWith (JStr []) (Some ''image/png'')])) = []"
  by (simp add: modal_eval)

text \<open>
  C4, amended. For every non-empty string payload rendered with the modal open, after any
  history of earlier renders: if the string begins with \<open>data:\<close> the stored locator is the
  string itself, and otherwise it is \<open>data:\<close>, then \<open>getMimeType\<close> of the detected kind and the
  hint, then \<open>;base64,\<close>, then the payload. The branch of the try block computes this
  locator for every string (\<open>processMediaFile_string\<close>); the empty string does not reach
  it, is skipped by the guard and leaves the state as it was. The example has the payload
  \<open>Zm9v\<close> with the hint \<open>image/png\<close>, whose locator is \<open>data:image/png;base64,Zm9v\<close>.
\<close>

theorem string_payload_locator:
  "(isOpen p \<and> mediaFile p = JStr s \<and> s \<noteq> [] \<longrightarrow>
      documentUrl (state (modalRun (ps @ [p]))) =
        (if startsWith s ''data:'' then s
         else ''data:'' @ getMimeType (kindName (detectFileType (mimeType p))) (mimeType p) @
              '';base64,'' @ s)) \<and>
   (isOpen q \<and> mediaFile q = JStr [] \<longrightarrow>
      state (modalRun (ps @ [q])) = state (modalRun ps))"
proof (intro conjI impI)
  assume "isOpen p \<and> mediaFile p = JStr s \<and> s \<noteq> []"
  then show "documentUrl (state (modalRun (ps @ [p]))) =
        (if startsWith s ''data:'' then s
         else ''data:'' @ getMimeType (kindName (detectFileType (mimeType p))) (mimeType p) @
              '';base64,'' @ s)"
    using open_string_payload_locator [of p s ps] by simp
next
  assume "isOpen q \<and> mediaFile q = JStr []"
  then show "state (modalRun (ps @ [q])) = state (modalRun ps)"
    using falsy_payload_skipped [of q ps] by simp
qed

theorem string_payload_locator_witness:
  "documentUrl (state (modalRun ([] @ [openWith (JStr ''Zm9v'') (Some ''image/png'')]))) =
     ''data:image/png;base64,Zm9v'' \<and>
   documentUrl (state (modalRun ([] @ [openWith (JStr ''data:text/plain,hi'') None]))) =
     ''data:text/plain,hi'' \<and>
   state (modalRun ([openWith (JStr ''Zm9v'') (Some ''image/png'')] @
                    [openWith (JStr []) (Some ''image/png'')])) =
     state (modalRun [openWith (JStr ''Zm9v'') (Some ''image/png'')])"
proof -
  let ?a = "openWith (JStr ''Zm9v'') (Some ''image/png'')"
  let ?b = "openWith (JStr ''data:text/plain,hi'') None"
  let ?c = "openWith (JStr []) (Some ''image/png'')"
  note t = string_payload_locator
  have a: "isOpen ?a \<and> mediaFile ?a = JStr ''Zm9v'' \<and> ''Zm9v'' \<noteq> []"
    by simp
  have b: "isOpen ?b \<and> mediaFile ?b = JStr ''data:text/plain,hi'' \<and>
      ''data:text/plain,hi'' \<noteq> []"
    by simp
  have c: "isOpen ?c \<and> mediaFile ?c = JStr []"
    by simp
  have ra: "documentUrl (state (modalRun ([] @ [?a]))) = ''data:image/png;base64,Zm9v''"
    using t [of ?a "''Zm9v''" "[]", THEN conjunct1, THEN mp, OF a]
    by (simp add: startsWith_def detectFileType_def getMimeType_def truthyStr_def)
  have rb: "documentUrl (state (modalRun ([] @ [?b]))) = ''data:text/plain,hi''"
    using t [of ?b "''data:text/plain,hi''" "[]", THEN conjunct1, THEN mp, OF b]
    by (simp add: startsWith_def)
  have rc: "state (modalRun ([?a] @ [?c])) = state (modalRun [?a])"
    by (rule t [of _ _ "[?a]" ?c, THEN conjunct2, THEN mp, OF c])
  show ?thesis by (intro conjI ra rb rc)
qed

section \<open>Failed normalization\<close>

lemma normalizationEffect_failure:
  assumes "isOpen p" and "truthy (mediaFile p)"
    and "failureMessage (processMediaFile (mediaFile p) (mimeType p) (detectFileType (mimeType p))) = Some msg"
  shows "normalizationEffect p (st, reg) =
    (st\<lparr>isLoading := False, error := msg, fileType := detectFileType (mimeType p)\<rparr>, reg)"
proof (cases "processMediaFile (mediaFile p) (mimeType p) (detectFileType (mimeType p))")
  case (Inl e)
  with assms(3) have "msg = ''Failed to load document''" by (simp add: failureMessage_def)
  then show ?thesis using normalizationEffect_thrown [OF assms(1,2) Inl] by simp
next
  case (Inr a)
  with assms(3) have "a = SetError msg"
    by (cases a) (simp_all add: failureMessage_def)
  then show ?thesis using normalizationEffect_SetError [OF assms(1,2)] Inr by simp
qed

lemma failureMessage_nonempty:
  "failureMessage (processMediaFile v mt k) = Some msg \<Longrightarrow> msg \<noteq> []"
  by (induction v mt k rule: processMediaFile.induct)
     (auto simp: failureMessage_def split: if_splits JsValue.splits sum.splits)

lemma unsupported_payload_open:
  assumes "isOpen p" and "truthy (mediaFile p)" and "matchesNoBranch (mediaFile p)"
    and "effect1Due p (modalRun ps)"
  shows "error (state (modalRun (ps @ [p]))) = ''Unsupported media file format'' \<and>
         \<not> isLoading (state (modalRun (ps @ [p]))) \<and>
         renderBody (state (modalRun (ps @ [p]))) =
           ErrorDisplay ''Unsupported media file format''
             (if documentUrl (state (modalRun ps)) \<noteq> [] then Some (documentUrl (state (modalRun ps)))
              else None)"
  by (simp add: modalRun_snoc rerender_open [OF consistent_modalRun assms(4,1)]
      normalizationEffect_SetError [OF assms(1,2) processMediaFile_noBranch [OF assms(3)]]
      renderBody_def)

text \<open>
  C10, as stated, after a close. The claim has \<open>documentUrl\<close> keep the value produced by
  the last successful normalization when a later normalization fails, so that the error
  display offers that locator. A buffer is normalized to an object URL, the modal is
  closed, which clears the stored locator, and it is opened again with the payload \<open>7\<close>,
  which fails: the stored locator is empty, not the buffer's URL, and the error display
  has no download button.
\<close>

theorem failure_after_close_offers_no_locator:
  "documentUrl (state (modalRun [openWith (JArrayBuffer 1) None])) = blobUrl 0 \<and>
   error (state (modalRun [openWith (JArrayBuffer 1) None])) = [] \<and>
   failureMessage (processMediaFile (JNum 7) None (detectFileType None)) =
     Some ''Unsupported media file format'' \<and>
   documentUrl (state (modalRun [openWith (JArrayBuffer 1) None, closedWith (JArrayBuffer 1) None,
                                 openWith (JNum 7) None])) = [] \<and>
   [] \<noteq> blobUrl 0 \<and>
   renderBody (state (modalRun [openWith (JArrayBuffer 1) None, closedWith (JArrayBuffer 1) None,
                                openWith (JNum 7) None])) =
     ErrorDisplay ''Unsupported media file format'' None"
  by (simp add: modal_eval failureMessage_def renderBody_def)

text \<open>
  C10, amended. When the normalization effect runs on a new payload (modal open, payload
  truthy) and the try block fails, by its \<open>setError\<close> branch or by a caught exception, then
  after the render has settled \<open>documentUrl\<close> is what it was before that render, no object
  URL has been allocated, the error message is set, and the error display offers the
  download of that stored locator when it is not empty and no download when it is empty.
  The example has a buffer normalized first, and then an object whose \<open>data\<close> is a symbol,
  on which the \<open>Blob\<close> constructor throws.
\<close>

theorem failed_normalization_keeps_locator:
  assumes "isOpen p" and "truthy (mediaFile p)" and "effect1Due p (modalRun ps)"
    and "failureMessage (processMediaFile (mediaFile p) (mimeType p) (detectFileType (mimeType p))) = Some msg"
  shows "documentUrl (state (modalRun (ps @ [p]))) = documentUrl (state (modalRun ps)) \<and>
         registry (modalRun (ps @ [p])) = cleanedRegistry (modalRun ps) \<and>
         error (state (modalRun (ps @ [p]))) = msg \<and> msg \<noteq> [] \<and>
         renderBody (state (modalRun (ps @ [p]))) =
           ErrorDisplay msg
             (if documentUrl (state (modalRun ps)) \<noteq> [] then Some (documentUrl (state (modalRun ps)))
              else None)"
  using failureMessage_nonempty [OF assms(4)]
  by (simp add: modalRun_snoc rerender_open [OF consistent_modalRun assms(3,1)]
      normalizationEffect_failure [OF assms(1,2,4)] renderBody_def)

theorem failed_normalization_keeps_locator_witness:
  "truthy (JObject 2 (JSymbol 3)) \<and>
   effect1Due (openWith (JObject 2 (JSymbol 3)) None) (modalRun [openWith (JArrayBuffer 1) None]) \<and>
   failureMessage (processMediaFile (JObject 2 (JSymbol 3)) None (detectFileType None)) =
     Some ''Failed to load document'' \<and>
   documentUrl (state (modalRun [openWith (JArrayBuffer 1) None])) = blobUrl 0 \<and>
   documentUrl (state (modalRun ([openWith (JArrayBuffer 1) None] @
                                 [openWith (JObject 2 (JSymbol 3)) None]))) = blobUrl 0 \<and>
   renderBody (state (modalRun ([openWith (JArrayBuffer 1) None] @
                                [openWith (JObject 2 (JSymbol 3)) None]))) =
     ErrorDisplay ''Failed to load document'' (Some (blobUrl 0))"
proof -
  let ?a = "openWith (JArrayBuffer 1) None"
  let ?p = "openWith (JObject 2 (JSymbol 3)) None"
  have a: "isOpen ?p" and b: "truthy (mediaFile ?p)" by simp_all
  have c: "effect1Due ?p (modalRun [?a])"
    by (simp add: modal_eval)
  have d: "failureMessage (processMediaFile (mediaFile ?p) (mimeType ?p)
      (detectFileType (mimeType ?p))) = Some ''Failed to load document''"
    by (simp add: failureMessage_def)
  have e: "documentUrl (state (modalRun [?a])) = blobUrl 0"
    by (simp add: modal_eval)
  have f: "blobUrl 0 \<noteq> []" by (simp add: blobUrl_def)
  show ?thesis
    using failed_normalization_keeps_locator [OF a b c d] b c d e f by simp
qed

text \<open>
  After two failures in a row the locator offered is one that the cleanup of the first
  effect has already revoked (see C1).
\<close>

lemma second_failure_offers_revoked_locator:
  "renderBody (state (modalRun [openWith (JArrayBuffer 1) None, openWith (JNum 7) None,
                                openWith (JNum 8) None])) =
     ErrorDisplay ''Unsupported media file format'' (Some (blobUrl 0)) \<and>
   liveUrls (registry (modalRun [openWith (JArrayBuffer 1) None, openWith (JNum 7) None,
                                 openWith (JNum 8) None])) = []"
  by (simp add: modal_eval renderBody_def)

text \<open>
  C8, as stated, at falsy payloads. The claim gives every payload that matches none of
  the normalizer's branches the unsupported-payload error. \<open>false\<close>, \<open>0\<close> and an absent
  payload match none of the branches, but they are falsy, so the guard
  \<open>mediaFile && isOpen\<close> skips the normalization and no error is set: the open modal shows
  an empty preview.
\<close>

theorem falsy_payload_raises_no_error:
  "matchesNoBranch (JBool False) \<and>
   error (state (modalRun [openWith (JBool False) None])) \<noteq>
     ''Unsupported media file format'' \<and>
   matchesNoBranch (JNum 0) \<and>
   error (state (modalRun [openWith (JNum 0) None])) = [] \<and>
   matchesNoBranch JUndefined \<and>
   error (state (modalRun [openWith JUndefined None])) = [] \<and>
   renderBody (state (modalRun [openWith JUndefined None])) = Preview NoContent"
  by (simp add: modal_eval matchesNoBranch_def renderBody_def renderPreviewContent_def)

text \<open>
  C8, amended. For every truthy payload that matches none of the normalizer's branches,
  rendered with the modal open so that the normalization effect runs: after the render
  has settled the error is \<open>Unsupported media file format\<close>, the loading flag is off, and the
  dialog shows the error display with that message (with a download button only if a
  locator was stored before). The effect is a total function of props and state: the
  failure is state, nothing is thrown to the caller. A falsy payload is skipped by the
  guard: no error is set, and the state stays as it was.
\<close>

theorem unsupported_payload_surfaced:
  "(isOpen p \<and> truthy (mediaFile p) \<and> matchesNoBranch (mediaFile p) \<and>
    effect1Due p (modalRun ps) \<longrightarrow>
      error (state (modalRun (ps @ [p]))) = ''Unsupported media file format'' \<and>
      \<not> isLoading (state (modalRun (ps @ [p]))) \<and>
      renderBody (state (modalRun (ps @ [p]))) =
        ErrorDisplay ''Unsupported media file format''
          (if documentUrl (state (modalRun ps)) \<noteq> []
           then Some (documentUrl (state (modalRun ps))) else None)) \<and>
   (isOpen q \<and> \<not> truthy (mediaFile q) \<longrightarrow>
      state (modalRun (ps @ [q])) = state (modalRun ps))"
proof (intro conjI impI)
  assume h: "isOpen p \<and> truthy (mediaFile p) \<and> matchesNoBranch (mediaFile p) \<and>
    effect1Due p (modalRun ps)"
  note r = unsupported_payload_open [of p ps]
  from h r show "error (state (modalRun (ps @ [p]))) = ''Unsupported media file format''"
    by simp
  from h r show "\<not> isLoading (state (modalRun (ps @ [p])))"
    by simp
  from h r show "renderBody (state (modalRun (ps @ [p]))) =
        ErrorDisplay ''Unsupported media file format''
          (if documentUrl (state (modalRun ps)) \<noteq> []
           then Some (documentUrl (state (modalRun ps))) else None)"
    by simp
next
  assume "isOpen q \<and> \<not> truthy (mediaFile q)"
  then show "state (modalRun (ps @ [q])) = state (modalRun ps)"
    using falsy_payload_skipped [of q ps] by simp
qed

theorem unsupported_payload_surfaced_witness:
  "truthy (JNum 7) \<and> matchesNoBranch (JNum 7) \<and>
   effect1Due (openWith (JNum 7) None) (modalRun []) \<and>
   error (state (modalRun ([] @ [openWith (JNum 7) None]))) =
     ''Unsupported media file format'' \<and>
   renderBody (state (modalRun ([] @ [openWith (JNum 7) None]))) =
     ErrorDisplay ''Unsupported media file format'' None \<and>
   \<not> truthy JUndefined \<and>
   state (modalRun ([openWith (JNum 7) None] @ [openWith JUndefined None])) =
     state (modalRun [openWith (JNum 7) None])"
proof -
  let ?p = "openWith (JNum 7) None"
  let ?q = "openWith JUndefined None"
  note t = unsupported_payload_surfaced
  have d: "effect1Due ?p (modalRun [])"
    by (simp add: modalRun_def effect1Due_def unmounted_def)
  have a: "isOpen ?p \<and> truthy (mediaFile ?p) \<and> matchesNoBranch (mediaFile ?p) \<and>
      effect1Due ?p (modalRun [])"
    using d by (simp add: matchesNoBranch_def)
  have e: "documentUrl (state (modalRun [])) = []"
    by (simp add: modalRun_def unmounted_def initialState_def)
  have c: "isOpen ?q \<and> \<not> truthy (mediaFile ?q)"
    by simp
  note ra = t [of ?p "[]", THEN conjunct1, THEN mp, OF a]
  have rc: "state (modalRun ([?p] @ [?q])) = state (modalRun [?p])"
    by (rule t [of _ "[?p]" ?q, THEN conjunct2, THEN mp, OF c])
  show ?thesis
    using ra a e rc by (simp add: matchesNoBranch_def)
qed

section \<open>The lifetime of object URLs\<close>

lemma blobUrl_inj: "blobUrl m = blobUrl n \<Longrightarrow> m = n"
  unfolding blobUrl_def by (metis length_replicate same_append_eq)

lemma isBlobUrl_blobUrl: "isBlobUrl (blobUrl n)"
  by (simp add: isBlobUrl_def blobUrl_def startsWith_def)

lemma not_isBlobUrl_stringLocator: "\<not> isBlobUrl (stringLocator s mt)"
  by (auto simp: isBlobUrl_def stringLocator_def startsWith_def)

lemma not_isBlobUrl_dataUrl: "\<not> isBlobUrl (dataUrl m s)"
  by (auto simp: isBlobUrl_def dataUrl_def startsWith_def)

lemma issued_cleanedRegistry [simp]: "issued (cleanedRegistry inst) = issued (registry inst)"
  by (simp add: cleanedRegistry_def normalizationCleanup_def revokeObjectURL_def)

lemma not_isBlobUrl_passthrough: "startsWith s ''data:'' \<Longrightarrow> \<not> isBlobUrl s"
  by (auto simp: isBlobUrl_def startsWith_def)

lemma processMediaFile_SetDocumentUrl_not_blob:
  "processMediaFile v mt k = Inr (SetDocumentUrl u) \<Longrightarrow> \<not> isBlobUrl u"
  by (induction v mt k rule: processMediaFile.induct)
     (auto simp: not_isBlobUrl_dataUrl not_isBlobUrl_passthrough
           split: if_splits JsValue.splits sum.splits)

lemma normalizationEffect_issuedInv:
  assumes "isBlobUrl (documentUrl st) \<longrightarrow> (\<exists>k < issued reg. documentUrl st = blobUrl k)"
  shows "isBlobUrl (documentUrl (fst (normalizationEffect p (st, reg)))) \<longrightarrow>
     (\<exists>k < issued (snd (normalizationEffect p (st, reg))).
        documentUrl (fst (normalizationEffect p (st, reg))) = blobUrl k)"
proof (cases "truthy (mediaFile p) \<and> isOpen p")
  case False
  then show ?thesis using assms by (auto simp: normalizationEffect_def)
next
  case True
  then have o: "isOpen p" and t: "truthy (mediaFile p)" by simp_all
  show ?thesis
  proof (cases "processMediaFile (mediaFile p) (mimeType p) (detectFileType (mimeType p))")
    case (Inl e)
    then show ?thesis using assms by (simp add: normalizationEffect_thrown [OF o t Inl])
  next
    case (Inr a)
    show ?thesis
    proof (cases a)
      case (SetDocumentUrl u)
      with Inr have r: "processMediaFile (mediaFile p) (mimeType p) (detectFileType (mimeType p)) = Inr (SetDocumentUrl u)" by simp
      show ?thesis using processMediaFile_SetDocumentUrl_not_blob [OF r]
        by (simp add: normalizationEffect_SetDocumentUrl [OF o t r])
    next
      case (CreateObjectUrl b)
      with Inr have r: "processMediaFile (mediaFile p) (mimeType p) (detectFileType (mimeType p)) = Inr (CreateObjectUrl b)" by simp
      show ?thesis by (auto simp: normalizationEffect_CreateObjectUrl [OF o t r])
    next
      case (SetError m)
      with Inr have r: "processMediaFile (mediaFile p) (mimeType p) (detectFileType (mimeType p)) = Inr (SetError m)" by simp
      show ?thesis using assms by (simp add: normalizationEffect_SetError [OF o t r])
    qed
  qed
qed

lemma issuedInv_rerender:
  assumes "consistent inst" and "issuedInv inst"
  shows "issuedInv (rerender p inst)"
proof (cases "effect1Due p inst")
  case False
  then show ?thesis using assms by (simp add: rerender_idle)
next
  case True
  show ?thesis
  proof (cases "isOpen p")
    case True
    have "isBlobUrl (documentUrl (state inst)) \<longrightarrow>
       (\<exists>k < issued (cleanedRegistry inst). documentUrl (state inst) = blobUrl k)"
      using assms(2) by (simp add: issuedInv_def)
    from normalizationEffect_issuedInv [OF this, of p]
    show ?thesis
      unfolding issuedInv_def rerender_open [OF assms(1) \<open>effect1Due p inst\<close> True] by simp
  next
    case False
    show ?thesis
      using assms(2)
      unfolding issuedInv_def rerender_closed [OF assms(1) \<open>effect1Due p inst\<close> False]
      by (auto simp: Let_def closeEffect_def revokeObjectURL_def)
  qed
qed

lemma issuedInv_modalRun: "issuedInv (modalRun ps)"
proof (induction ps rule: rev_induct)
  case Nil
  show ?case by (simp add: modalRun_Nil issuedInv_def unmounted_def initialState_def)
next
  case (snoc p ps)
  then show ?case
    by (simp add: modalRun_snoc issuedInv_rerender consistent_modalRun)
qed

lemma processMediaFile_CreateObjectUrl_truthy:
  "processMediaFile v mt k = Inr (CreateObjectUrl b) \<Longrightarrow> truthy v"
  by (cases v) (auto split: if_splits)

lemma liveUrls_revoke: "u \<notin> set (liveUrls (revokeObjectURL u reg))"
  by (auto simp: liveUrls_def revokeObjectURL_def)

lemma liveUrls_cleanup_subset:
  "set (liveUrls (normalizationCleanup c reg)) \<subseteq> set (liveUrls reg)"
  by (auto simp: liveUrls_def normalizationCleanup_def revokeObjectURL_def)

text \<open>
  What the component does keep: every live object URL is the stored locator or the one
  captured by the stored cleanup, so at most two are live at a time, and rendering the
  open modal closed releases them all.
\<close>

lemma set_liveUrls_revoke:
  "set (liveUrls (revokeObjectURL u reg)) = set (liveUrls reg) - {u}"
  by (auto simp: liveUrls_def revokeObjectURL_def)

lemma liveUrls_cleaned:
  assumes "liveInv inst"
  shows "set (liveUrls (cleanedRegistry inst)) \<subseteq> {documentUrl (state inst)} \<and>
         (\<forall>u \<in> set (liveUrls (cleanedRegistry inst)). isBlobUrl u)"
proof (cases "effect1_deps inst")
  case None
  then show ?thesis using assms by (simp add: liveInv_def cleanedRegistry_def)
next
  case (Some d)
  show ?thesis
  proof (cases "isBlobUrl (effect1_captured inst)")
    case True
    then show ?thesis using assms Some
      by (auto simp: liveInv_def cleanedRegistry_def normalizationCleanup_def
          set_liveUrls_revoke)
  next
    case False
    then have "effect1_captured inst \<notin> set (liveUrls (registry inst))"
      using assms by (auto simp: liveInv_def)
    then show ?thesis using assms Some False
      by (auto simp: liveInv_def cleanedRegistry_def normalizationCleanup_def)
  qed
qed

lemma normalizationEffect_live:
  "set (liveUrls (snd (normalizationEffect p (st, reg)))) \<subseteq>
     set (liveUrls reg) \<union> {documentUrl (fst (normalizationEffect p (st, reg)))} \<and>
   (\<forall>u \<in> set (liveUrls (snd (normalizationEffect p (st, reg)))).
      u \<in> set (liveUrls reg) \<or> isBlobUrl u)"
proof (cases "truthy (mediaFile p) \<and> isOpen p")
  case False
  then show ?thesis by (auto simp: normalizationEffect_def)
next
  case True
  then have o: "isOpen p" and t: "truthy (mediaFile p)" by simp_all
  show ?thesis
  proof (cases "processMediaFile (mediaFile p) (mimeType p) (detectFileType (mimeType p))")
    case (Inl e)
    show ?thesis by (auto simp: normalizationEffect_thrown [OF o t Inl])
  next
    case (Inr a)
    show ?thesis
    proof (cases a)
      case (SetDocumentUrl u)
      with Inr have r: "processMediaFile (mediaFile p) (mimeType p) (detectFileType (mimeType p)) = Inr (SetDocumentUrl u)" by simp
      show ?thesis by (auto simp: normalizationEffect_SetDocumentUrl [OF o t r])
    next
      case (CreateObjectUrl b)
      with Inr have r: "processMediaFile (mediaFile p) (mimeType p) (detectFileType (mimeType p)) = Inr (CreateObjectUrl b)" by simp
      show ?thesis
        by (auto simp: normalizationEffect_CreateObjectUrl [OF o t r] liveUrls_def isBlobUrl_blobUrl)
    next
      case (SetError m)
      with Inr have r: "processMediaFile (mediaFile p) (mimeType p) (detectFileType (mimeType p)) = Inr (SetError m)" by simp
      show ?thesis by (auto simp: normalizationEffect_SetError [OF o t r])
    qed
  qed
qed

lemma liveInv_rerender:
  assumes "consistent inst" and "liveInv inst"
  shows "liveInv (rerender p inst)"
proof (cases "effect1Due p inst")
  case False
  then show ?thesis using assms by (simp add: rerender_idle)
next
  case True
  note c = liveUrls_cleaned [OF assms(2)]
  show ?thesis
  proof (cases "isOpen p")
    case True
    note n = normalizationEffect_live [of p "state inst" "cleanedRegistry inst"]
    show ?thesis
      unfolding liveInv_def rerender_open [OF assms(1) \<open>effect1Due p inst\<close> True]
      using c n by auto
  next
    case False
    show ?thesis
      unfolding liveInv_def rerender_closed [OF assms(1) \<open>effect1Due p inst\<close> False]
      using c by (auto simp: Let_def closeEffect_def set_liveUrls_revoke)
  qed
qed

lemma liveInv_modalRun: "liveInv (modalRun ps)"
proof (induction ps rule: rev_induct)
  case Nil
  show ?case by (simp add: modalRun_Nil liveInv_def unmounted_def liveUrls_def)
next
  case (snoc p ps)
  then show ?case
    by (simp add: modalRun_snoc liveInv_rerender consistent_modalRun)
qed

lemma at_most_two_live: "card (set (liveUrls (registry (modalRun ps)))) \<le> 2"
proof -
  have "set (liveUrls (registry (modalRun ps))) \<subseteq>
      {documentUrl (state (modalRun ps)), effect1_captured (modalRun ps)}"
    using liveInv_modalRun [of ps] by (simp add: liveInv_def)
  then have "card (set (liveUrls (registry (modalRun ps)))) \<le>
      card {documentUrl (state (modalRun ps)), effect1_captured (modalRun ps)}"
    by (intro card_mono) simp_all
  also have "\<dots> \<le> 2" by (simp add: card_insert_if)
  finally show ?thesis .
qed

lemma close_releases_everything:
  assumes "effect1_deps (modalRun ps) = Some d" and "isOpen d" and "\<not> isOpen p"
  shows "liveUrls (registry (modalRun (ps @ [p]))) = []"
proof -
  let ?i = "modalRun ps"
  have ci: "consistent ?i" by (rule consistent_modalRun)
  have due1: "effect1Due p ?i"
    using assms by (auto simp: effect1Due_def sameDeps_def)
  have due2: "effect2Due p ?i"
    using ci assms by (auto simp: effect2Due_def consistent_def)
  note c = liveUrls_cleaned [OF liveInv_modalRun [of ps]]
  have "u \<notin> set (liveUrls (registry (modalRun (ps @ [p]))))" for u
    using c due2 assms(3)
    by (auto simp: modalRun_snoc rerender_closed [OF ci due1 assms(3)] Let_def closeEffect_def
        set_liveUrls_revoke simp del: set_empty)
  then show ?thesis
    by (cases "liveUrls (registry (modalRun (ps @ [p])))") (simp, metis list.set_intros(1))
qed

lemma issued_revokeObjectURL: "issued (revokeObjectURL u reg) = issued reg"
  by (simp add: revokeObjectURL_def)

lemma liveUrls_cleaned_subset:
  "set (liveUrls (cleanedRegistry inst)) \<subseteq> set (liveUrls (registry inst))"
  using liveUrls_cleanup_subset [of "effect1_captured inst" "registry inst"]
  by (simp add: cleanedRegistry_def)

lemma normalizationEffect_liveIssued:
  assumes "\<forall>u \<in> set (liveUrls reg). \<exists>k < issued reg. u = blobUrl k"
  shows "\<forall>u \<in> set (liveUrls (snd (normalizationEffect p (st, reg)))).
     \<exists>k < issued (snd (normalizationEffect p (st, reg))). u = blobUrl k"
proof (cases "truthy (mediaFile p) \<and> isOpen p")
  case False
  then show ?thesis using assms by (auto simp: normalizationEffect_def)
next
  case True
  then have o: "isOpen p" and t: "truthy (mediaFile p)" by simp_all
  show ?thesis
  proof (cases "processMediaFile (mediaFile p) (mimeType p) (detectFileType (mimeType p))")
    case (Inl e)
    show ?thesis using assms by (simp add: normalizationEffect_thrown [OF o t Inl])
  next
    case (Inr a)
    show ?thesis
    proof (cases a)
      case (SetDocumentUrl u)
      with Inr have r: "processMediaFile (mediaFile p) (mimeType p) (detectFileType (mimeType p)) = Inr (SetDocumentUrl u)" by simp
      show ?thesis using assms by (simp add: normalizationEffect_SetDocumentUrl [OF o t r])
    next
      case (CreateObjectUrl b)
      with Inr have r: "processMediaFile (mediaFile p) (mimeType p) (detectFileType (mimeType p)) = Inr (CreateObjectUrl b)" by simp
      show ?thesis using assms
        by (auto simp: normalizationEffect_CreateObjectUrl [OF o t r] liveUrls_def less_Suc_eq)
    next
      case (SetError m)
      with Inr have r: "processMediaFile (mediaFile p) (mimeType p) (detectFileType (mimeType p)) = Inr (SetError m)" by simp
      show ?thesis using assms by (simp add: normalizationEffect_SetError [OF o t r])
    qed
  qed
qed

lemma liveIssuedInv_rerender:
  assumes "consistent inst" and "liveIssuedInv inst"
  shows "liveIssuedInv (rerender p inst)"
proof (cases "effect1Due p inst")
  case False
  then show ?thesis using assms by (simp add: rerender_idle)
next
  case True
  have c: "\<forall>u \<in> set (liveUrls (cleanedRegistry inst)).
      \<exists>k < issued (cleanedRegistry inst). u = blobUrl k"
    using assms(2) liveUrls_cleaned_subset [of inst] by (auto simp: liveIssuedInv_def)
  show ?thesis
  proof (cases "isOpen p")
    case True
    from normalizationEffect_liveIssued [OF c, of p "state inst"]
    show ?thesis
      unfolding liveIssuedInv_def rerender_open [OF assms(1) \<open>effect1Due p inst\<close> True] by simp
  next
    case False
    show ?thesis
      unfolding liveIssuedInv_def rerender_closed [OF assms(1) \<open>effect1Due p inst\<close> False]
      using c by (auto simp: Let_def closeEffect_def set_liveUrls_revoke issued_revokeObjectURL)
  qed
qed

lemma liveIssuedInv_modalRun: "liveIssuedInv (modalRun ps)"
proof (induction ps rule: rev_induct)
  case Nil
  show ?case by (simp add: modalRun_Nil liveIssuedInv_def unmounted_def liveUrls_def)
next
  case (snoc p ps)
  then show ?case
    by (simp add: modalRun_snoc liveIssuedInv_rerender consistent_modalRun)
qed

text \<open>
  C9, as stated, with a live object URL that is not the stored locator. The claim has
  the locator released and the stored locator state cleared whenever the modal goes from
  open to closed while an allocated object URL is live. After a buffer and then a string
  payload the buffer's URL is still live (see C1) and the stored locator is the string's
  data URL. Closing releases the URL, but the second effect clears only a stored locator
  that starts with \<open>blob:\<close>, so the data URL stays stored.
\<close>

theorem close_keeps_stored_data_url:
  "isOpen (openWith (JStr ''Zm9v'') None) \<and>
   effect1_deps (modalRun [openWith (JArrayBuffer 1) None, openWith (JStr ''Zm9v'') None]) =
     Some (openWith (JStr ''Zm9v'') None) \<and>
   blobUrl 0 \<in> set (liveUrls (registry
     (modalRun [openWith (JArrayBuffer 1) None, openWith (JStr ''Zm9v'') None]))) \<and>
   blobUrl 0 \<notin> set (liveUrls (registry
     (modalRun [openWith (JArrayBuffer 1) None, openWith (JStr ''Zm9v'') None,
                closedWith (JStr ''Zm9v'') None]))) \<and>
   documentUrl (state
     (modalRun [openWith (JArrayBuffer 1) None, openWith (JStr ''Zm9v'') None,
                closedWith (JStr ''Zm9v'') None])) =
     ''data:application/octet-stream;base64,Zm9v'' \<and>
   documentUrl (state
     (modalRun [openWith (JArrayBuffer 1) None, openWith (JStr ''Zm9v'') None,
                closedWith (JStr ''Zm9v'') None])) \<noteq> []"
  by (simp add: modal_eval)

text \<open>
  C9, amended. Whenever the modal is rendered closed after it was rendered open, every
  object URL that was live is released, and the stored locator is cleared when it is an
  object URL; a stored data URL stays as it is. When the modal is then rendered open
  again with a payload that needs an object URL, the same payload as before included, the
  normalization effect runs again, and the locator it stores is a newly allocated object
  URL, none of those that were live before the close, and the only one live.
\<close>

theorem close_releases_all_reopen_allocates_fresh:
  assumes "effect1_deps (modalRun ps) = Some d" and "isOpen d"
    and "\<not> isOpen p"
    and "isOpen q"
    and "processMediaFile (mediaFile q) (mimeType q) (detectFileType (mimeType q)) =
           Inr (CreateObjectUrl b)"
  shows "liveUrls (registry (modalRun (ps @ [p]))) = [] \<and>
         documentUrl (state (modalRun (ps @ [p]))) =
           (if isBlobUrl (documentUrl (state (modalRun ps))) then []
            else documentUrl (state (modalRun ps))) \<and>
         effect1Due q (modalRun (ps @ [p])) \<and>
         isBlobUrl (documentUrl (state (modalRun (ps @ [p, q])))) \<and>
         documentUrl (state (modalRun (ps @ [p, q]))) \<notin> set (liveUrls (registry (modalRun ps))) \<and>
         liveUrls (registry (modalRun (ps @ [p, q]))) =
           [documentUrl (state (modalRun (ps @ [p, q])))]"
proof -
  let ?i = "modalRun ps"
  let ?u = "documentUrl (state ?i)"
  let ?c = "modalRun (ps @ [p])"
  let ?r = "modalRun (ps @ [p, q])"
  let ?n = "issued (registry ?i)"
  have ci: "consistent ?i" by (rule consistent_modalRun)
  have due1: "effect1Due p ?i"
    using assms(1,2,3) by (auto simp: effect1Due_def sameDeps_def)
  have due2: "effect2Due p ?i"
    using ci assms(1,2,3) by (auto simp: effect2Due_def consistent_def)
  have none: "liveUrls (registry ?c) = []"
    by (rule close_releases_everything [OF assms(1,2,3)])
  have c_deps: "effect1_deps ?c = Some p"
    by (simp add: modalRun_snoc rerender_closed [OF ci due1 assms(3)] Let_def)
  have c_doc: "documentUrl (state ?c) = (if isBlobUrl ?u then [] else ?u)"
    using due2 assms(3)
    by (simp add: modalRun_snoc rerender_closed [OF ci due1 assms(3)] closeEffect_def Let_def)
  have c_issued: "issued (registry ?c) = ?n"
    using due2 assms(3)
    by (simp add: modalRun_snoc rerender_closed [OF ci due1 assms(3)] closeEffect_def Let_def
        revokeObjectURL_def)
  have cc: "consistent ?c" by (rule consistent_modalRun)
  have due3: "effect1Due q ?c"
    using assms(3,4) by (auto simp: c_deps effect1Due_def sameDeps_def)
  have tq: "truthy (mediaFile q)" by (rule processMediaFile_CreateObjectUrl_truthy [OF assms(5)])
  have rq: "?r = rerender q ?c"
    using modalRun_snoc [of "ps @ [p]" q] by simp
  have clean_c: "liveUrls (cleanedRegistry ?c) = []"
    using liveUrls_cleaned_subset [of ?c] none by simp
  have doc_r: "documentUrl (state ?r) = blobUrl ?n"
    by (simp add: rq rerender_open [OF cc due3 assms(4)]
        normalizationEffect_CreateObjectUrl [OF assms(4) tq assms(5)] c_issued)
  have live_r: "liveUrls (registry ?r) = [blobUrl ?n]"
    using clean_c
    by (simp add: rq rerender_open [OF cc due3 assms(4)]
        normalizationEffect_CreateObjectUrl [OF assms(4) tq assms(5)] c_issued liveUrls_def)
  have fresh: "blobUrl ?n \<notin> set (liveUrls (registry ?i))"
  proof
    assume "blobUrl ?n \<in> set (liveUrls (registry ?i))"
    then obtain k where "k < ?n" and "blobUrl ?n = blobUrl k"
      using liveIssuedInv_modalRun [of ps] by (auto simp: liveIssuedInv_def)
    then show False using blobUrl_inj [of ?n k] by simp
  qed
  show ?thesis
    using none c_doc due3 fresh
    by (simp add: doc_r live_r isBlobUrl_blobUrl)
qed

theorem close_releases_all_reopen_allocates_fresh_witness:
  "blobUrl 0 \<in> set (liveUrls (registry
     (modalRun [openWith (JArrayBuffer 1) None, openWith (JStr ''Zm9v'') None]))) \<and>
   liveUrls (registry (modalRun ([openWith (JArrayBuffer 1) None, openWith (JStr ''Zm9v'') None] @
     [closedWith (JStr ''Zm9v'') None]))) = [] \<and>
   documentUrl (state (modalRun ([openWith (JArrayBuffer 1) None, openWith (JStr ''Zm9v'') None] @
     [closedWith (JStr ''Zm9v'') None, openWith (JArrayBuffer 1) None]))) = blobUrl (Suc 0) \<and>
   liveUrls (registry (modalRun ([openWith (JArrayBuffer 1) None, openWith (JStr ''Zm9v'') None] @
     [closedWith (JStr ''Zm9v'') None, openWith (JArrayBuffer 1) None]))) = [blobUrl (Suc 0)] \<and>
   documentUrl (state (modalRun [openWith (JArrayBuffer 1) None])) = blobUrl 0 \<and>
   documentUrl (state (modalRun ([openWith (JArrayBuffer 1) None] @
     [closedWith (JArrayBuffer 1) None]))) = [] \<and>
   liveUrls (registry (modalRun ([openWith (JArrayBuffer 1) None] @
     [closedWith (JArrayBuffer 1) None]))) = [] \<and>
   liveUrls (registry (modalRun ([openWith (JArrayBuffer 1) None] @
     [closedWith (JArrayBuffer 1) None, openWith (JArrayBuffer 1) None]))) = [blobUrl (Suc 0)]"
proof -
  let ?o = "openWith (JArrayBuffer 1) None"
  let ?s = "openWith (JStr ''Zm9v'') None"
  let ?cs = "closedWith (JStr ''Zm9v'') None"
  let ?c = "closedWith (JArrayBuffer 1) None"
  have a1: "effect1_deps (modalRun [?o, ?s]) = Some ?s" by (simp add: modal_eval)
  have a2: "effect1_deps (modalRun [?o]) = Some ?o" by (simp add: modal_eval)
  have os: "isOpen ?s" and oo: "isOpen ?o" and ncs: "\<not> isOpen ?cs" and nc: "\<not> isOpen ?c"
    by simp_all
  have f: "processMediaFile (mediaFile ?o) (mimeType ?o) (detectFileType (mimeType ?o)) =
      Inr (CreateObjectUrl (NewBlob (JArrayBuffer 1) ''application/octet-stream''))"
    by (simp add: detectFileType_def getMimeType_def truthyStr_def)
  have l: "blobUrl 0 \<in> set (liveUrls (registry (modalRun [?o, ?s])))"
    by (simp add: modal_eval)
  have n1: "issued (registry (modalRun [?o, ?s])) = Suc 0" by (simp add: modal_eval)
  have e: "documentUrl (state (modalRun [?o])) = blobUrl 0" by (simp add: modal_eval)
  have n2: "issued (registry (modalRun [?o])) = Suc 0" by (simp add: modal_eval)
  have d1: "documentUrl (state (modalRun ([?o, ?s] @ [?cs, ?o]))) = blobUrl (Suc 0)"
    by (simp add: modal_eval)
  note t1 = close_releases_all_reopen_allocates_fresh [OF a1 os ncs oo f]
  note t2 = close_releases_all_reopen_allocates_fresh [OF a2 oo nc oo f]
  have d2: "documentUrl (state (modalRun ([?o] @ [?c, ?o]))) = blobUrl (Suc 0)"
    by (simp add: modal_eval)
  show ?thesis
    using t1 t2 l e d1 d2 isBlobUrl_blobUrl [of 0] by simp
qed

text \<open>
  C1. The claim is that at most one object URL is live at any time, the previous one
  being released no later than the next is created. The cleanup of the normalization
  effect does revoke a \<open>documentUrl\<close> when the payload changes, but the one of the render
  in which the effect last ran, which is the locator before the one that run stored.
  With two buffers rendered in succession the first cleanup holds the empty initial
  locator, so nothing is revoked and both URLs are live; the first is revoked only by the
  cleanup that runs at the change after that, and unmounting the open modal revokes
  nothing at all.
\<close>

theorem second_buffer_leaves_first_locator_live:
  "liveUrls (registry (modalRun [openWith (JArrayBuffer 1) None])) = [blobUrl 0] \<and>
   liveUrls (registry (modalRun [openWith (JArrayBuffer 1) None,
                                 openWith (JArrayBuffer 2) None])) =
     [blobUrl 0, blobUrl (Suc 0)] \<and>
   blobUrl 0 \<noteq> blobUrl (Suc 0) \<and>
   documentUrl (state (modalRun [openWith (JArrayBuffer 1) None,
                                 openWith (JArrayBuffer 2) None])) = blobUrl (Suc 0)"
  by (simp add: modal_eval)

lemma first_locator_released_one_change_late:
  "liveUrls (registry (modalRun [openWith (JArrayBuffer 1) None,
                                 openWith (JArrayBuffer 2) None,
                                 openWith (JArrayBuffer 3) None])) =
     [blobUrl (Suc 0), blobUrl (Suc (Suc 0))]"
  by (simp add: modal_eval)

lemma unmount_while_open_leaves_locator_live:
  "liveUrls (registry (unmount (modalRun [openWith (JArrayBuffer 1) None]))) = [blobUrl 0]"
  by (simp add: modal_eval unmount_def)

end
